theory Spec2Isabelle
  imports Main "HOL-Library.Word" "HOL-Library.AList"
begin

section \<open>The per-interface NDP state machine of pkg/tcpip/network/ipv6/ndp.go\<close>

text \<open>
  A shallow embedding of \<^verbatim>\<open>ndp.go\<close>. Every function of the file that changes
  \<^verbatim>\<open>ndpState\<close> is a HOL function from a state to a state; a Go panic (the process
  aborts) is the value \<open>None\<close>. The definitions carry the source's names.
\<close>

subsection \<open>Time\<close>

text \<open>
  \<^verbatim>\<open>time.Duration\<close> is a signed count of nanoseconds; \<^verbatim>\<open>time.Time\<close> is an instant,
  here the nanoseconds elapsed since the zero instant \<^verbatim>\<open>time.Time{}\<close>, which is \<open>0\<close>.
  The file only adds durations to instants, subtracts instants and compares.
\<close>

type_synonym Duration = int
type_synonym Time = int

definition Millisecond :: Duration where
  "Millisecond = 1000000"

definition Second :: Duration where
  "Second = 1000 * Millisecond"

definition Minute :: Duration where
  "Minute = 60 * Second"

definition Hour :: Duration where
  "Hour = 60 * Minute"

text \<open>
  \<^verbatim>\<open>Time.Sub\<close> saturates at the least and the greatest \<^verbatim>\<open>Duration\<close> (an int64);
  \<^verbatim>\<open>time.Until(t)\<close> is \<^verbatim>\<open>t.Sub(time.Now())\<close> and \<^verbatim>\<open>time.Since(t)\<close> is
  \<^verbatim>\<open>time.Now().Sub(t)\<close>.
\<close>

definition maxDuration :: Duration where
  "maxDuration = 2 ^ 63 - 1"

definition minDuration :: Duration where
  "minDuration = - (2 ^ 63)"

definition Sub :: "Time \<Rightarrow> Time \<Rightarrow> Duration" where
  "Sub t u = max minDuration (min maxDuration (t - u))"

definition Add :: "Time \<Rightarrow> Duration \<Rightarrow> Time" where
  "Add t d = t + d"

subsection \<open>Constants (ndp.go, lines 29 to 197)\<close>

definition defaultRetransmitTimer :: Duration where
  "defaultRetransmitTimer = Second"

definition minimumRetransmitTimer :: Duration where
  "minimumRetransmitTimer = Millisecond"

definition defaultDupAddrDetectTransmits :: "8 word" where
  "defaultDupAddrDetectTransmits = 1"

definition defaultMaxRtrSolicitations :: "8 word" where
  "defaultMaxRtrSolicitations = 3"

definition defaultRtrSolicitationInterval :: Duration where
  "defaultRtrSolicitationInterval = 4 * Second"

definition defaultMaxRtrSolicitationDelay :: Duration where
  "defaultMaxRtrSolicitationDelay = Second"

definition defaultHandleRAs :: bool where
  "defaultHandleRAs = True"

definition defaultDiscoverDefaultRouters :: bool where
  "defaultDiscoverDefaultRouters = True"

definition defaultDiscoverOnLinkPrefixes :: bool where
  "defaultDiscoverOnLinkPrefixes = True"

definition defaultAutoGenGlobalAddresses :: bool where
  "defaultAutoGenGlobalAddresses = True"

definition minimumRtrSolicitationInterval :: Duration where
  "minimumRtrSolicitationInterval = 500 * Millisecond"

definition minimumMaxRtrSolicitationDelay :: Duration where
  "minimumMaxRtrSolicitationDelay = 0"

definition MaxDiscoveredDefaultRouters :: nat where
  "MaxDiscoveredDefaultRouters = 10"

definition MaxDiscoveredOnLinkPrefixes :: nat where
  "MaxDiscoveredOnLinkPrefixes = 10"

definition validPrefixLenForAutoGen :: nat where
  "validPrefixLenForAutoGen = 64"

definition defaultAutoGenTempGlobalAddresses :: bool where
  "defaultAutoGenTempGlobalAddresses = True"

definition defaultMaxTempAddrValidLifetime :: Duration where
  "defaultMaxTempAddrValidLifetime = 7 * 24 * Hour"

definition defaultMaxTempAddrPreferredLifetime :: Duration where
  "defaultMaxTempAddrPreferredLifetime = 24 * Hour"

definition defaultRegenAdvanceDuration :: Duration where
  "defaultRegenAdvanceDuration = 5 * Second"

definition minRegenAdvanceDuration :: Duration where
  "minRegenAdvanceDuration = 0"

definition maxSLAACAddrLocalRegenAttempts :: nat where
  "maxSLAACAddrLocalRegenAttempts = 10"

definition MinPrefixInformationValidLifetimeForUpdate :: Duration where
  "MinPrefixInformationValidLifetimeForUpdate = 2 * Hour"

definition MaxDesyncFactor :: Duration where
  "MaxDesyncFactor = 10 * Minute"

definition MinMaxTempAddrPreferredLifetime :: Duration where
  "MinMaxTempAddrPreferredLifetime = defaultRegenAdvanceDuration + MaxDesyncFactor + Hour"

definition MinMaxTempAddrValidLifetime :: Duration where
  "MinMaxTempAddrValidLifetime = 2 * Hour"

text \<open>
  Modelled from the spec: \<^verbatim>\<open>header.NDPInfiniteLifetime\<close>, a constant of the header
  package that is not part of this file. The spec calls it \<open>Infinite\<close>; on the wire a
  lifetime is a 32-bit count of seconds and the infinite lifetime is all ones
  (RFC 4861, section 4.6.2).
\<close>

definition NDPInfiniteLifetime :: Duration where
  "NDPInfiniteLifetime = 4294967295 * Second"

lemmas durations =
  Millisecond_def Second_def Minute_def Hour_def maxDuration_def minDuration_def
  defaultRetransmitTimer_def minimumRetransmitTimer_def defaultRtrSolicitationInterval_def
  defaultMaxRtrSolicitationDelay_def minimumRtrSolicitationInterval_def
  minimumMaxRtrSolicitationDelay_def defaultMaxTempAddrValidLifetime_def
  defaultMaxTempAddrPreferredLifetime_def defaultRegenAdvanceDuration_def
  minRegenAdvanceDuration_def MinPrefixInformationValidLifetimeForUpdate_def
  MaxDesyncFactor_def MinMaxTempAddrPreferredLifetime_def MinMaxTempAddrValidLifetime_def
  NDPInfiniteLifetime_def

subsection \<open>NDPConfigurations (lines 331 to 458)\<close>

record NDPConfigurations =
  DupAddrDetectTransmits :: "8 word"
  RetransmitTimer :: Duration
  MaxRtrSolicitations :: "8 word"
  RtrSolicitationInterval :: Duration
  MaxRtrSolicitationDelay :: Duration
  HandleRAs :: bool
  DiscoverDefaultRouters :: bool
  DiscoverOnLinkPrefixes :: bool
  AutoGenGlobalAddresses :: bool
  AutoGenAddressConflictRetries :: "8 word"
  AutoGenTempGlobalAddresses :: bool
  MaxTempAddrValidLifetime :: Duration
  MaxTempAddrPreferredLifetime :: Duration
  RegenAdvanceDuration :: Duration

text \<open>
  \<^verbatim>\<open>DefaultNDPConfigurations\<close> leaves \<^verbatim>\<open>AutoGenAddressConflictRetries\<close> out of the
  literal, so it is Go's zero value.
\<close>

definition DefaultNDPConfigurations :: NDPConfigurations where
  "DefaultNDPConfigurations = \<lparr>
     DupAddrDetectTransmits = defaultDupAddrDetectTransmits,
     RetransmitTimer = defaultRetransmitTimer,
     MaxRtrSolicitations = defaultMaxRtrSolicitations,
     RtrSolicitationInterval = defaultRtrSolicitationInterval,
     MaxRtrSolicitationDelay = defaultMaxRtrSolicitationDelay,
     HandleRAs = defaultHandleRAs,
     DiscoverDefaultRouters = defaultDiscoverDefaultRouters,
     DiscoverOnLinkPrefixes = defaultDiscoverOnLinkPrefixes,
     AutoGenGlobalAddresses = defaultAutoGenGlobalAddresses,
     AutoGenAddressConflictRetries = 0,
     AutoGenTempGlobalAddresses = defaultAutoGenTempGlobalAddresses,
     MaxTempAddrValidLifetime = defaultMaxTempAddrValidLifetime,
     MaxTempAddrPreferredLifetime = defaultMaxTempAddrPreferredLifetime,
     RegenAdvanceDuration = defaultRegenAdvanceDuration \<rparr>"

text \<open>
  \<^verbatim>\<open>validate\<close> runs six \<^verbatim>\<open>if\<close> statements in order on the same struct; the fifth
  reads \<^verbatim>\<open>MaxTempAddrValidLifetime\<close> after the fourth may have changed it.
\<close>

definition validate :: "NDPConfigurations \<Rightarrow> NDPConfigurations" where
  "validate c0 =
    (let c1 = (if RetransmitTimer c0 < minimumRetransmitTimer
               then c0\<lparr>RetransmitTimer := defaultRetransmitTimer\<rparr> else c0);
         c2 = (if RtrSolicitationInterval c1 < minimumRtrSolicitationInterval
               then c1\<lparr>RtrSolicitationInterval := defaultRtrSolicitationInterval\<rparr> else c1);
         c3 = (if MaxRtrSolicitationDelay c2 < minimumMaxRtrSolicitationDelay
               then c2\<lparr>MaxRtrSolicitationDelay := defaultMaxRtrSolicitationDelay\<rparr> else c2);
         c4 = (if MaxTempAddrValidLifetime c3 < MinMaxTempAddrValidLifetime
               then c3\<lparr>MaxTempAddrValidLifetime := MinMaxTempAddrValidLifetime\<rparr> else c3);
         c5 = (if MaxTempAddrPreferredLifetime c4 < MinMaxTempAddrPreferredLifetime
                  \<or> MaxTempAddrPreferredLifetime c4 > MaxTempAddrValidLifetime c4
               then c4\<lparr>MaxTempAddrPreferredLifetime := MinMaxTempAddrPreferredLifetime\<rparr> else c4);
         c6 = (if RegenAdvanceDuration c5 < minRegenAdvanceDuration
               then c5\<lparr>RegenAdvanceDuration := minRegenAdvanceDuration\<rparr> else c5)
     in c6)"

subsection \<open>Addresses, address endpoints, events\<close>

text \<open>
  \<^verbatim>\<open>tcpip.Address\<close> is a Go string of bytes; the zero \<^verbatim>\<open>Address\<close> is the empty
  string. A \<^verbatim>\<open>tcpip.Subnet\<close> is read through \<^verbatim>\<open>ID()\<close> and \<^verbatim>\<open>Prefix()\<close> (the
  number of leading ones of its mask) only.
\<close>

type_synonym Address = "8 word list"

datatype Subnet = Subnet (ID: Address) (Prefix: nat)

datatype AddressWithPrefix = AddressWithPrefix (Address: Address) (PrefixLen: nat)

text \<open>
  Modelled from the spec: the constants \<^verbatim>\<open>header.IPv6Any\<close> (\<open>::\<close>),
  \<^verbatim>\<open>header.IPv6LinkLocalPrefix.Subnet()\<close> (\<open>fe80::/64\<close>) and the test
  \<^verbatim>\<open>header.IsV6LinkLocalAddress\<close> (the link-local range \<open>fe80::/10\<close>) of the header
  package, which is not part of this file.
\<close>

definition IPv6Any :: Address where
  "IPv6Any = [0, 0, 0, 0, 0, 0, 0, 0, 0, 0, 0, 0, 0, 0, 0, 0]"

definition IPv6LinkLocalPrefix_Subnet :: Subnet where
  "IPv6LinkLocalPrefix_Subnet =
     Subnet [254, 128, 0, 0, 0, 0, 0, 0, 0, 0, 0, 0, 0, 0, 0, 0] 64"

definition IsV6LinkLocalAddress :: "Address \<Rightarrow> bool" where
  "IsV6LinkLocalAddress a =
     (length a = 16 \<and> a ! 0 = 254 \<and> 128 \<le> a ! 1 \<and> a ! 1 < 192)"

definition IIDOffsetInIPv6Address :: nat where
  "IIDOffsetInIPv6Address = 8"

text \<open>
  Modelled from the spec: the \<^verbatim>\<open>stack.AddressEndpoint\<close> handles owned by the parent
  endpoint (type declarations of the stack package, not part of this file). The file
  reads and writes an address's kind and its deprecated flag, and reads its address and
  how it was configured. A handle is a reference: it is a number, and the objects live
  in the \<open>endpoints\<close> store of the state below; Go's \<^verbatim>\<open>nil\<close> handle is \<open>None\<close>.
  The reference count (\<^verbatim>\<open>DecRef\<close>) belongs to the stack package and is not modelled.
\<close>

datatype AddressKind = PermanentTentative | Permanent | PermanentExpired | Temporary

datatype AddressConfigType = AddressConfigStatic | AddressConfigSlaac | AddressConfigSlaacTemp

record AddressEndpoint =
  addrWithPrefix :: AddressWithPrefix
  Kind :: AddressKind
  ConfigType :: AddressConfigType
  Deprecated :: bool

datatype tcpip_Error =
    ErrAddressFamilyNotSupported
  | ErrDuplicateAddress
  | ErrBadLocalAddress
  | ErrLink nat

text \<open>
  \<^verbatim>\<open>DHCPv6ConfigurationFromNDPRA\<close> is declared \<^verbatim>\<open>int\<close>; its constants are numbered by
  \<^verbatim>\<open>iota\<close> after a blank first one, so no named constant is \<open>0\<close>.
\<close>

type_synonym DHCPv6ConfigurationFromNDPRA = int

definition DHCPv6NoConfiguration :: DHCPv6ConfigurationFromNDPRA where
  "DHCPv6NoConfiguration = 1"

definition DHCPv6ManagedAddress :: DHCPv6ConfigurationFromNDPRA where
  "DHCPv6ManagedAddress = 2"

definition DHCPv6OtherConfigurations :: DHCPv6ConfigurationFromNDPRA where
  "DHCPv6OtherConfigurations = 3"

text \<open>
  A call of a method of \<^verbatim>\<open>NDPDispatcher\<close> (lines 233 to 329), with its arguments;
  the first is the NIC's id. The state keeps the calls made so far, in order.
\<close>

datatype event =
    OnDuplicateAddressDetectionStatus nat Address bool "tcpip_Error option"
  | OnDefaultRouterDiscovered nat Address
  | OnDefaultRouterInvalidated nat Address
  | OnOnLinkPrefixDiscovered nat Subnet
  | OnOnLinkPrefixInvalidated nat Subnet
  | OnAutoGenAddress nat AddressWithPrefix
  | OnAutoGenAddressDeprecated nat AddressWithPrefix
  | OnAutoGenAddressInvalidated nat AddressWithPrefix
  | OnRecursiveDNSServerOption nat "Address list" Duration
  | OnDNSSearchListOption nat "string list" Duration
  | OnDHCPv6Configuration nat DHCPv6ConfigurationFromNDPRA

text \<open>
  What the integrator answers where a method returns a \<^verbatim>\<open>bool\<close>.
\<close>

record NDPDispatcher =
  DefaultRouterDiscovered_ret :: "Address \<Rightarrow> bool"
  OnLinkPrefixDiscovered_ret :: "Subnet \<Rightarrow> bool"
  AutoGenAddress_ret :: "AddressWithPrefix \<Rightarrow> bool"

text \<open>
  A packet handed to \<^verbatim>\<open>nic.WritePacketToRemote\<close>: a Neighbor Solicitation for a target
  (source \<open>::\<close>, sent to the target's solicited-node address), or a Router Solicitation
  from a source with its Source Link-Layer Address options (sent to \<open>ff02::2\<close>).
\<close>

datatype packet =
    NeighborSolicit Address
  | RouterSolicit Address "8 word list list"

subsection \<open>What the file takes from its surroundings\<close>

text \<open>
  The collaborators \<^verbatim>\<open>ndp.go\<close> calls and that are not part of it, as parameters: the
  NIC (\<^verbatim>\<open>ndp.ep.nic\<close>), the protocol's options and forwarding flag
  (\<^verbatim>\<open>ndp.ep.protocol\<close>), functions of the header package, \<^verbatim>\<open>AddressWithPrefix.Subnet\<close>
  and \<^verbatim>\<open>rand.Int63n\<close>. \<^verbatim>\<open>NDPDisp\<close> is \<open>None\<close> when no dispatcher is registered,
  \<^verbatim>\<open>NICNameFromID\<close> is \<open>None\<close> when opaque IIDs are not configured.
\<close>

record env =
  nicID :: nat
  nicName :: string
  LinkAddress :: "8 word list"
  Forwarding :: bool
  NDPDisp :: "NDPDispatcher option"
  NICNameFromID :: "(nat \<Rightarrow> string \<Rightarrow> string) option"
  SecretKey :: "8 word list"
  IsV6UnicastAddress :: "Address \<Rightarrow> bool"
  IsValidUnicastEthernetAddress :: "8 word list \<Rightarrow> bool"
  AppendOpaqueInterfaceIdentifier ::
    "8 word list \<Rightarrow> Subnet \<Rightarrow> string \<Rightarrow> 8 word \<Rightarrow> 8 word list \<Rightarrow> 8 word list"
  EthernetAdddressToModifiedEUI64IntoBuf :: "8 word list \<Rightarrow> 8 word list \<Rightarrow> 8 word list"
  GenerateTempIPv6SLAACAddr :: "8 word list \<Rightarrow> Address \<Rightarrow> 8 word list \<times> AddressWithPrefix"
  Subnet_of :: "AddressWithPrefix \<Rightarrow> Subnet"
  rand_Int63n :: "int \<Rightarrow> int"

subsection \<open>Jobs\<close>

text \<open>
  Modelled from the spec: \<^verbatim>\<open>tcpip.Job\<close>, the cancellable one-shot of the spec's
  section 4.1 (its code is not part of this file). A job is pending with a deadline or
  not pending: \<^verbatim>\<open>Schedule(d)\<close> sets the deadline \<open>d\<close> from now, replacing a pending
  one; \<^verbatim>\<open>Cancel()\<close> leaves it not pending; the runtime runs the body of a pending job
  whose deadline has come, and the job is then no longer pending. Go holds jobs by
  pointer; here a job is a field of the entry that owns it, and a change to the job is
  written to the entry.
\<close>

type_synonym Job = "Time option"

definition Schedule :: "Time \<Rightarrow> Duration \<Rightarrow> Job" where
  "Schedule t d = Some (Add t d)"

definition Cancel :: Job where
  "Cancel = None"

definition due :: "Time \<Rightarrow> Job \<Rightarrow> bool" where
  "due t j = (case j of None \<Rightarrow> False | Some deadline \<Rightarrow> deadline \<le> t)"

subsection \<open>ndpState (lines 460 to 605)\<close>

text \<open>
  A DAD entry. Its job's closure holds the variable \<^verbatim>\<open>remaining\<close> and the address
  endpoint handed to \<^verbatim>\<open>startDuplicateAddressDetection\<close>; they are fields here. The
  field \<^verbatim>\<open>done\<close> of the Go struct is never written or read in this file.
\<close>

record dadState =
  dad_job :: Job
  dad_remaining :: "8 word"
  dad_addressEndpoint :: nat

record defaultRouterState =
  rtr_invalidationJob :: Job

record onLinkPrefixState =
  olp_invalidationJob :: Job

record tempSLAACAddrState =
  tmp_deprecationJob :: Job
  tmp_invalidationJob :: Job
  regenJob :: Job
  createdAt :: Time
  tmp_addressEndpoint :: nat
  regenerated :: bool

text \<open>
  Go maps are association lists here: \<open>map_of\<close> looks a key up, \<open>AList.update\<close> stores
  (in place for a known key, at the end for a new one), \<open>AList.delete\<close> deletes, and
  \<^verbatim>\<open>len\<close> is \<open>length\<close>. A \<^verbatim>\<open>range\<close> loop visits the keys in the list's order, which is
  one of the orders Go may choose.
\<close>

record slaacPrefixState =
  deprecationJob :: Job
  invalidationJob :: Job
  validUntil :: Time
  preferredUntil :: Time
  stableAddr_addressEndpoint :: "nat option"
  stableAddr_localGenerationFailures :: "8 word"
  tempAddrs :: "(Address \<times> tempSLAACAddrState) list"
  generationAttempts :: "8 word"
  maxGenerationAttempts :: "8 word"

text \<open>
  The router solicitation job; its closure holds the variable \<^verbatim>\<open>remaining\<close>.
\<close>

record rtrSolicitJobState =
  rs_job :: Job
  rs_remaining :: "8 word"

text \<open>
  The fields of \<^verbatim>\<open>ndpState\<close> (\<^verbatim>\<open>ep\<close> is the parameter \<open>env\<close> and the last five fields
  here), then what the file reads and changes outside the struct: the clock
  (\<^verbatim>\<open>time.Now\<close>, one value during a call), the store of address endpoint objects and the
  next free handle, the addresses the IPv6 endpoint owns, the dispatcher calls made and
  the packets handed to the NIC, each with the NIC's answer.
\<close>

record ndpState =
  configs :: NDPConfigurations
  dad :: "(Address \<times> dadState) list"
  defaultRouters :: "(Address \<times> defaultRouterState) list"
  rtrSolicitJob :: "rtrSolicitJobState option"
  onLinkPrefixes :: "(Subnet \<times> onLinkPrefixState) list"
  slaacPrefixes :: "(Subnet \<times> slaacPrefixState) list"
  dhcpv6Configuration :: DHCPv6ConfigurationFromNDPRA
  temporaryIIDHistory :: "8 word list"
  temporaryAddressDesyncFactor :: Duration
  now :: Time
  endpoints :: "nat \<Rightarrow> AddressEndpoint"
  nextEndpoint :: nat
  addressTable :: "(Address \<times> nat) list"
  events :: "event list"
  packets :: "(packet \<times> tcpip_Error option) list"

text \<open>
  \<^verbatim>\<open>if ndpDisp := ndp.ep.protocol.options.NDPDisp; ndpDisp != nil { ndpDisp.On...(nicID, ...) }\<close>
\<close>

definition notify :: "env \<Rightarrow> (nat \<Rightarrow> event) \<Rightarrow> ndpState \<Rightarrow> ndpState" where
  "notify e ev s =
     (case NDPDisp e of
        None \<Rightarrow> s
      | Some ndpDisp \<Rightarrow> s\<lparr>events := events s @ [ev (nicID e)]\<rparr>)"

definition GetKind :: "ndpState \<Rightarrow> nat \<Rightarrow> AddressKind" where
  "GetKind s h = Kind (endpoints s h)"

definition SetKind :: "nat \<Rightarrow> AddressKind \<Rightarrow> ndpState \<Rightarrow> ndpState" where
  "SetKind h k s = s\<lparr>endpoints := (endpoints s)(h := (endpoints s h)\<lparr>Kind := k\<rparr>)\<rparr>"

definition SetDeprecated :: "nat \<Rightarrow> bool \<Rightarrow> ndpState \<Rightarrow> ndpState" where
  "SetDeprecated h d s = s\<lparr>endpoints := (endpoints s)(h := (endpoints s h)\<lparr>Deprecated := d\<rparr>)\<rparr>"

subsection \<open>Duplicate Address Detection (lines 607 to 763)\<close>

text \<open>
  The result is \<open>None\<close> where the Go function panics; otherwise the returned
  \<^verbatim>\<open>*tcpip.Error\<close> (\<open>None\<close> is \<^verbatim>\<open>nil\<close>) and the state after the call.
\<close>

definition startDuplicateAddressDetection ::
  "env \<Rightarrow> Address \<Rightarrow> nat \<Rightarrow> ndpState \<Rightarrow> (tcpip_Error option \<times> ndpState) option" where
  "startDuplicateAddressDetection e addr addressEndpoint s =
    (if \<not> IsV6UnicastAddress e addr then Some (Some ErrAddressFamilyNotSupported, s)
     else if GetKind s addressEndpoint \<noteq> PermanentTentative then None
     else if map_of (dad s) addr \<noteq> None then None
     else
       let remaining = DupAddrDetectTransmits (configs s) in
       if remaining = 0 then
         Some (None,
           notify e (\<lambda>n. OnDuplicateAddressDetectionStatus n addr True None)
             (SetKind addressEndpoint Permanent s))
       else
         Some (None,
           s\<lparr>dad := AList.update addr
                \<lparr>dad_job = Schedule (now s) 0, dad_remaining = remaining,
                 dad_addressEndpoint = addressEndpoint\<rparr> (dad s)\<rparr>))"

text \<open>
  \<^verbatim>\<open>sendDADPacket\<close> builds the Neighbor Solicitation and hands it to the NIC; it returns
  what \<^verbatim>\<open>WritePacketToRemote\<close> returns, here the parameter \<open>txerr\<close>.
\<close>

definition sendDADPacket ::
  "Address \<Rightarrow> tcpip_Error option \<Rightarrow> ndpState \<Rightarrow> tcpip_Error option \<times> ndpState" where
  "sendDADPacket addr txerr s = (txerr, s\<lparr>packets := packets s @ [(NeighborSolicit addr, txerr)]\<rparr>)"

definition stopDuplicateAddressDetection :: "env \<Rightarrow> Address \<Rightarrow> ndpState \<Rightarrow> ndpState" where
  "stopDuplicateAddressDetection e addr s =
    (case map_of (dad s) addr of
       None \<Rightarrow> s
     | Some d \<Rightarrow>
         notify e (\<lambda>n. OnDuplicateAddressDetectionStatus n addr False None)
           (s\<lparr>dad := AList.delete addr (dad s)\<rparr>))"

subsection \<open>Default routers and on-link prefixes (lines 885 to 1040)\<close>

definition invalidateDefaultRouter :: "env \<Rightarrow> Address \<Rightarrow> ndpState \<Rightarrow> ndpState" where
  "invalidateDefaultRouter e ip s =
    (case map_of (defaultRouters s) ip of
       None \<Rightarrow> s
     | Some rtr \<Rightarrow>
         notify e (\<lambda>n. OnDefaultRouterInvalidated n ip)
           (s\<lparr>defaultRouters := AList.delete ip (defaultRouters s)\<rparr>))"

definition rememberDefaultRouter :: "env \<Rightarrow> Address \<Rightarrow> Duration \<Rightarrow> ndpState \<Rightarrow> ndpState" where
  "rememberDefaultRouter e ip rl s =
    (case NDPDisp e of
       None \<Rightarrow> s
     | Some ndpDisp \<Rightarrow>
         let s1 = s\<lparr>events := events s @ [OnDefaultRouterDiscovered (nicID e) ip]\<rparr> in
         if \<not> DefaultRouterDiscovered_ret ndpDisp ip then s1
         else s1\<lparr>defaultRouters := AList.update ip
                   \<lparr>rtr_invalidationJob = Schedule (now s1) rl\<rparr> (defaultRouters s1)\<rparr>)"

definition rememberOnLinkPrefix :: "env \<Rightarrow> Subnet \<Rightarrow> Duration \<Rightarrow> ndpState \<Rightarrow> ndpState" where
  "rememberOnLinkPrefix e prefix l s =
    (case NDPDisp e of
       None \<Rightarrow> s
     | Some ndpDisp \<Rightarrow>
         let s1 = s\<lparr>events := events s @ [OnOnLinkPrefixDiscovered (nicID e) prefix]\<rparr> in
         if \<not> OnLinkPrefixDiscovered_ret ndpDisp prefix then s1
         else s1\<lparr>onLinkPrefixes := AList.update prefix
                   \<lparr>olp_invalidationJob =
                      (if l < NDPInfiniteLifetime then Schedule (now s1) l else None)\<rparr>
                   (onLinkPrefixes s1)\<rparr>)"

definition invalidateOnLinkPrefix :: "env \<Rightarrow> Subnet \<Rightarrow> ndpState \<Rightarrow> ndpState" where
  "invalidateOnLinkPrefix e prefix s =
    (case map_of (onLinkPrefixes s) prefix of
       None \<Rightarrow> s
     | Some st \<Rightarrow>
         notify e (\<lambda>n. OnOnLinkPrefixInvalidated n prefix)
           (s\<lparr>onLinkPrefixes := AList.delete prefix (onLinkPrefixes s)\<rparr>))"

text \<open>
  A Prefix Information option, as the file reads it (wire parsing is the header
  package's).
\<close>

record NDPPrefixInformation =
  pi_Subnet :: Subnet
  ValidLifetime :: Duration
  PreferredLifetime :: Duration
  OnLinkFlag :: bool
  AutonomousAddressConfigurationFlag :: bool

definition handleOnLinkPrefixInformation ::
  "env \<Rightarrow> NDPPrefixInformation \<Rightarrow> ndpState \<Rightarrow> ndpState" where
  "handleOnLinkPrefixInformation e pi s =
    (let prefix = pi_Subnet pi;
         prefixState = map_of (onLinkPrefixes s) prefix;
         vl = ValidLifetime pi
     in
       if prefixState = None \<and> vl = 0 then s
       else if prefixState = None \<and> vl \<noteq> 0 then
         (if DiscoverOnLinkPrefixes (configs s)
               \<and> length (onLinkPrefixes s) < MaxDiscoveredOnLinkPrefixes
          then rememberOnLinkPrefix e prefix vl s else s)
       else if prefixState \<noteq> None \<and> vl = 0 then invalidateOnLinkPrefix e prefix s
       else
         s\<lparr>onLinkPrefixes := AList.update prefix
              \<lparr>olp_invalidationJob =
                 (if vl < NDPInfiniteLifetime then Schedule (now s) vl else Cancel)\<rparr>
              (onLinkPrefixes s)\<rparr>)"

subsection \<open>The parent endpoint's address table\<close>

text \<open>
  Modelled from the spec: \<^verbatim>\<open>endpoint.hasPermanentAddressRLocked\<close>,
  \<^verbatim>\<open>endpoint.addAndAcquirePermanentAddressLocked\<close> and
  \<^verbatim>\<open>endpoint.removePermanentEndpointLocked\<close>, methods of the parent endpoint whose code
  (ipv6.go) is not among the sources. The spec's section 6 has the address table call
  \<open>startDAD\<close> when an address is added and \<open>stopDAD\<close> when one is removed, and its
  section 4.6 has a removal notify the integrator that a SLAAC address is invalidated,
  without cascading to the prefix: \<^verbatim>\<open>ndp.go\<close> passes \<^verbatim>\<open>allowSLAACInvalidation = false\<close>
  at each of its calls, and only that case is modelled. A new address is tentative.
\<close>

definition hasPermanentAddressRLocked :: "ndpState \<Rightarrow> Address \<Rightarrow> bool" where
  "hasPermanentAddressRLocked s a = (map_of (addressTable s) a \<noteq> None)"

definition addAndAcquirePermanentAddressLocked ::
  "env \<Rightarrow> AddressWithPrefix \<Rightarrow> AddressConfigType \<Rightarrow> bool \<Rightarrow> ndpState
     \<Rightarrow> ((tcpip_Error + nat) \<times> ndpState) option" where
  "addAndAcquirePermanentAddressLocked e addr configType deprecated s =
    (if hasPermanentAddressRLocked s (Address addr) then Some (Inl ErrDuplicateAddress, s)
     else
       let h = nextEndpoint s;
           s1 = s\<lparr>endpoints := (endpoints s)(h :=
                    \<lparr>addrWithPrefix = addr, Kind = PermanentTentative,
                     ConfigType = configType, Deprecated = deprecated\<rparr>),
                  nextEndpoint := Suc h,
                  addressTable := AList.update (Address addr) h (addressTable s)\<rparr>
       in
         case startDuplicateAddressDetection e (Address addr) h s1 of
           None \<Rightarrow> None
         | Some (Some err, s2) \<Rightarrow> Some (Inl err, s2)
         | Some (None, s2) \<Rightarrow> Some (Inr h, s2))"

text \<open>
  What \<^verbatim>\<open>cleanupSLAACAddrResourcesAndNotify(addr, false)\<close> does (lines 1637 to 1655):
  the removal of a stable SLAAC address calls it. The whole function is defined further
  down, after the functions its other branch calls.
\<close>

definition cleanupSLAACAddrResourcesAndNotify_keepPrefix ::
  "env \<Rightarrow> AddressWithPrefix \<Rightarrow> ndpState \<Rightarrow> ndpState" where
  "cleanupSLAACAddrResourcesAndNotify_keepPrefix e addr s =
    (let s1 = notify e (\<lambda>n. OnAutoGenAddressInvalidated n addr) s;
         prefix = Subnet_of e addr
     in
       case map_of (slaacPrefixes s1) prefix of
         None \<Rightarrow> s1
       | Some state \<Rightarrow>
           (case stableAddr_addressEndpoint state of
              None \<Rightarrow> s1
            | Some h \<Rightarrow>
                if Address addr \<noteq> Address (addrWithPrefix (endpoints s1 h)) then s1
                else s1\<lparr>slaacPrefixes := AList.update prefix
                          (state\<lparr>stableAddr_addressEndpoint := None\<rparr>) (slaacPrefixes s1)\<rparr>))"

definition removePermanentEndpointLocked ::
  "env \<Rightarrow> nat \<Rightarrow> ndpState \<Rightarrow> tcpip_Error option \<times> ndpState" where
  "removePermanentEndpointLocked e addressEndpoint s =
    (let addr = addrWithPrefix (endpoints s addressEndpoint) in
     if map_of (addressTable s) (Address addr) \<noteq> Some addressEndpoint
     then (Some ErrBadLocalAddress, s)
     else
       let s1 = stopDuplicateAddressDetection e (Address addr) s;
           s2 = (case ConfigType (endpoints s1 addressEndpoint) of
                   AddressConfigStatic \<Rightarrow> s1
                 | AddressConfigSlaac \<Rightarrow> cleanupSLAACAddrResourcesAndNotify_keepPrefix e addr s1
                 | AddressConfigSlaacTemp \<Rightarrow>
                     notify e (\<lambda>n. OnAutoGenAddressInvalidated n addr) s1)
       in (None, SetKind addressEndpoint PermanentExpired
                   (s2\<lparr>addressTable := AList.delete (Address addr) (addressTable s2)\<rparr>)))"

subsection \<open>SLAAC (lines 1042 to 1756)\<close>

text \<open>
  \<^verbatim>\<open>addAndAcquireSLAACAddr\<close> returns \<^verbatim>\<open>nil\<close> (\<open>None\<close>) without a dispatcher or when
  the integrator refuses the address, and panics when the endpoint fails to add it.
\<close>

definition addAndAcquireSLAACAddr ::
  "env \<Rightarrow> AddressWithPrefix \<Rightarrow> AddressConfigType \<Rightarrow> bool \<Rightarrow> ndpState
     \<Rightarrow> (nat option \<times> ndpState) option" where
  "addAndAcquireSLAACAddr e addr configType deprecated s =
    (case NDPDisp e of
       None \<Rightarrow> Some (None, s)
     | Some ndpDisp \<Rightarrow>
         let s1 = s\<lparr>events := events s @ [OnAutoGenAddress (nicID e) addr]\<rparr> in
         if \<not> AutoGenAddress_ret ndpDisp addr then Some (None, s1)
         else
           (case addAndAcquirePermanentAddressLocked e addr configType deprecated s1 of
              None \<Rightarrow> None
            | Some (Inl err, s2) \<Rightarrow> None
            | Some (Inr addressEndpoint, s2) \<Rightarrow> Some (Some addressEndpoint, s2)))"

text \<open>
  The loop of \<^verbatim>\<open>generateSLAACAddr\<close> (lines 1201 to 1250). The first argument counts the
  rounds left before \<^verbatim>\<open>i == maxSLAACAddrLocalRegenAttempts\<close>. The result is the
  generated address, or \<open>None\<close> where the loop returns \<^verbatim>\<open>false\<close>, and the prefix state,
  whose \<^verbatim>\<open>localGenerationFailures\<close> the loop counts up through the pointer.
\<close>

fun generateSLAACAddr_loop ::
  "nat \<Rightarrow> env \<Rightarrow> Subnet \<Rightarrow> ndpState \<Rightarrow> 8 word list \<Rightarrow> slaacPrefixState
     \<Rightarrow> AddressWithPrefix option \<times> slaacPrefixState" where
  "generateSLAACAddr_loop 0 e prefix s addrBytes state = (None, state)"
| "generateSLAACAddr_loop (Suc n) e prefix s addrBytes state =
    (let dadCounter = generationAttempts state + stableAddr_localGenerationFailures state;
         generated =
           (case NICNameFromID e of
              Some nameFromID \<Rightarrow>
                Some (AppendOpaqueInterfaceIdentifier e (take IIDOffsetInIPv6Address addrBytes)
                        prefix (nameFromID (nicID e) (nicName e)) dadCounter (SecretKey e))
            | None \<Rightarrow>
                if dadCounter = 0 then
                  (if \<not> IsValidUnicastEthernetAddress e (LinkAddress e) then None
                   else Some (take IIDOffsetInIPv6Address addrBytes @
                          EthernetAdddressToModifiedEUI64IntoBuf e (LinkAddress e)
                            (drop IIDOffsetInIPv6Address addrBytes)))
                else None)
     in
       case generated of
         None \<Rightarrow> (None, state)
       | Some addrBytes' \<Rightarrow>
           let generatedAddr = AddressWithPrefix addrBytes' validPrefixLenForAutoGen in
           if \<not> hasPermanentAddressRLocked s (Address generatedAddr)
           then (Some generatedAddr, state)
           else generateSLAACAddr_loop n e prefix s addrBytes'
                  (state\<lparr>stableAddr_localGenerationFailures :=
                            stableAddr_localGenerationFailures state + 1\<rparr>))"

text \<open>
  The result of \<^verbatim>\<open>generateSLAACAddr\<close>: the returned \<^verbatim>\<open>bool\<close>, the prefix state behind
  the pointer, and the state.
\<close>

definition generateSLAACAddr ::
  "env \<Rightarrow> Subnet \<Rightarrow> slaacPrefixState \<Rightarrow> ndpState
     \<Rightarrow> (bool \<times> slaacPrefixState \<times> ndpState) option" where
  "generateSLAACAddr e prefix state s =
    (if stableAddr_addressEndpoint state \<noteq> None then None
     else if generationAttempts state = maxGenerationAttempts state then Some (False, state, s)
     else
       (case generateSLAACAddr_loop maxSLAACAddrLocalRegenAttempts e prefix s (ID prefix) state of
          (None, state1) \<Rightarrow> Some (False, state1, s)
        | (Some generatedAddr, state1) \<Rightarrow>
            (case addAndAcquireSLAACAddr e generatedAddr AddressConfigSlaac
                    (Sub (now s) (preferredUntil state1) \<ge> 0) s of
               None \<Rightarrow> None
             | Some (None, s1) \<Rightarrow> Some (False, state1, s1)
             | Some (Some addressEndpoint, s1) \<Rightarrow>
                 Some (True,
                   state1\<lparr>stableAddr_addressEndpoint := Some addressEndpoint,
                          generationAttempts := generationAttempts state1 + 1\<rparr>, s1))))"

text \<open>
  The loop of \<^verbatim>\<open>generateTempSLAACAddr\<close> (lines 1348 to 1359);
  \<^verbatim>\<open>header.GenerateTempIPv6SLAACAddr\<close> rewrites the history it is given.
\<close>

fun generateTempSLAACAddr_loop ::
  "nat \<Rightarrow> env \<Rightarrow> Address \<Rightarrow> ndpState \<Rightarrow> AddressWithPrefix option \<times> ndpState" where
  "generateTempSLAACAddr_loop 0 e stableAddr s = (None, s)"
| "generateTempSLAACAddr_loop (Suc n) e stableAddr s =
    (let r = GenerateTempIPv6SLAACAddr e (temporaryIIDHistory s) stableAddr;
         generatedAddr = snd r;
         s1 = s\<lparr>temporaryIIDHistory := fst r\<rparr>
     in
       if \<not> hasPermanentAddressRLocked s1 (Address generatedAddr) then (Some generatedAddr, s1)
       else generateTempSLAACAddr_loop n e stableAddr s1)"

definition generateTempSLAACAddr ::
  "env \<Rightarrow> Subnet \<Rightarrow> slaacPrefixState \<Rightarrow> bool \<Rightarrow> ndpState
     \<Rightarrow> (bool \<times> slaacPrefixState \<times> ndpState) option" where
  "generateTempSLAACAddr e prefix prefixState0 resetGenAttempts s =
    (if \<not> AutoGenTempGlobalAddresses (configs s) \<or> prefix = IPv6LinkLocalPrefix_Subnet
     then Some (False, prefixState0, s)
     else
       let prefixState =
             (if resetGenAttempts
              then prefixState0\<lparr>generationAttempts := 0,
                     maxGenerationAttempts := AutoGenAddressConflictRetries (configs s) + 1\<rparr>
              else prefixState0)
       in
       if generationAttempts prefixState = maxGenerationAttempts prefixState
       then Some (False, prefixState, s)
       else
         (case stableAddr_addressEndpoint prefixState of
            None \<Rightarrow> None
          | Some stableEndpoint \<Rightarrow>
              let stableAddr = Address (addrWithPrefix (endpoints s stableEndpoint));
                  t = now s;
                  vl = (if validUntil prefixState \<noteq> 0
                           \<and> MaxTempAddrValidLifetime (configs s) > Sub (validUntil prefixState) t
                        then Sub (validUntil prefixState) t
                        else MaxTempAddrValidLifetime (configs s))
              in
              if vl \<le> 0 then Some (False, prefixState, s)
              else
                let pl0 = MaxTempAddrPreferredLifetime (configs s) - temporaryAddressDesyncFactor s;
                    pl = (if preferredUntil prefixState \<noteq> 0
                             \<and> pl0 > Sub (preferredUntil prefixState) t
                          then Sub (preferredUntil prefixState) t else pl0)
                in
                if pl \<le> RegenAdvanceDuration (configs s) then Some (False, prefixState, s)
                else
                  (case generateTempSLAACAddr_loop maxSLAACAddrLocalRegenAttempts e stableAddr s of
                     (None, s1) \<Rightarrow> Some (False, prefixState, s1)
                   | (Some generatedAddr, s1) \<Rightarrow>
                       (case addAndAcquireSLAACAddr e generatedAddr AddressConfigSlaacTemp False s1 of
                          None \<Rightarrow> None
                        | Some (None, s2) \<Rightarrow> Some (False, prefixState, s2)
                        | Some (Some addressEndpoint, s2) \<Rightarrow>
                            let state = \<lparr>tmp_deprecationJob = Schedule (now s2) pl,
                                         tmp_invalidationJob = Schedule (now s2) vl,
                                         regenJob = Schedule (now s2)
                                                      (pl - RegenAdvanceDuration (configs s2)),
                                         createdAt = t,
                                         tmp_addressEndpoint = addressEndpoint,
                                         regenerated = False\<rparr>
                            in Some (True,
                                 prefixState\<lparr>generationAttempts := generationAttempts prefixState + 1,
                                   tempAddrs := AList.update (Address generatedAddr) state
                                                  (tempAddrs prefixState)\<rparr>,
                                 s2)))))"

definition regenerateTempSLAACAddr :: "env \<Rightarrow> Subnet \<Rightarrow> bool \<Rightarrow> ndpState \<Rightarrow> ndpState option" where
  "regenerateTempSLAACAddr e prefix resetGenAttempts s =
    (case map_of (slaacPrefixes s) prefix of
       None \<Rightarrow> None
     | Some state \<Rightarrow>
         (case generateTempSLAACAddr e prefix state resetGenAttempts s of
            None \<Rightarrow> None
          | Some (generated, state1, s1) \<Rightarrow>
              Some (s1\<lparr>slaacPrefixes := AList.update prefix state1 (slaacPrefixes s1)\<rparr>)))"

text \<open>
  An address endpoint that is \<^verbatim>\<open>nil\<close> makes the first method call panic.
\<close>

definition deprecateSLAACAddress :: "env \<Rightarrow> nat option \<Rightarrow> ndpState \<Rightarrow> ndpState option" where
  "deprecateSLAACAddress e addressEndpoint s =
    (case addressEndpoint of
       None \<Rightarrow> None
     | Some h \<Rightarrow>
         if Deprecated (endpoints s h) then Some s
         else Some (notify e (\<lambda>n. OnAutoGenAddressDeprecated n (addrWithPrefix (endpoints s h)))
                      (SetDeprecated h True s)))"

text \<open>
  \<^verbatim>\<open>cleanupTempSLAACAddrResources\<close> drops its reference, cancels the three jobs of the
  entry and deletes the entry from the map it is given. The map is the one the prefix
  state holds (Go maps are references): the functions below return the map after the
  call, and their callers store it in the prefix state.
\<close>

definition cleanupTempSLAACAddrResources ::
  "(Address \<times> tempSLAACAddrState) list \<Rightarrow> Address \<Rightarrow> tempSLAACAddrState
     \<Rightarrow> (Address \<times> tempSLAACAddrState) list" where
  "cleanupTempSLAACAddrResources tempAddrs0 tempAddr tempAddrState = AList.delete tempAddr tempAddrs0"

definition invalidateTempSLAACAddr ::
  "env \<Rightarrow> (Address \<times> tempSLAACAddrState) list \<Rightarrow> Address \<Rightarrow> tempSLAACAddrState \<Rightarrow> ndpState
     \<Rightarrow> ((Address \<times> tempSLAACAddrState) list \<times> ndpState) option" where
  "invalidateTempSLAACAddr e tempAddrs0 tempAddr tempAddrState s =
    (case removePermanentEndpointLocked e (tmp_addressEndpoint tempAddrState) s of
       (Some err, s1) \<Rightarrow> None
     | (None, s1) \<Rightarrow> Some (cleanupTempSLAACAddrResources tempAddrs0 tempAddr tempAddrState, s1))"

text \<open>
  The loop of \<^verbatim>\<open>cleanupSLAACPrefixResources\<close> over the temporary addresses; an entry
  deleted before the loop reaches it is not visited.
\<close>

fun invalidateTempSLAACAddrs ::
  "env \<Rightarrow> Address list \<Rightarrow> (Address \<times> tempSLAACAddrState) list \<Rightarrow> ndpState
     \<Rightarrow> ((Address \<times> tempSLAACAddrState) list \<times> ndpState) option" where
  "invalidateTempSLAACAddrs e [] tempAddrs0 s = Some (tempAddrs0, s)"
| "invalidateTempSLAACAddrs e (tempAddr # rest) tempAddrs0 s =
    (case map_of tempAddrs0 tempAddr of
       None \<Rightarrow> invalidateTempSLAACAddrs e rest tempAddrs0 s
     | Some tempAddrState \<Rightarrow>
         (case invalidateTempSLAACAddr e tempAddrs0 tempAddr tempAddrState s of
            None \<Rightarrow> None
          | Some (tempAddrs1, s1) \<Rightarrow> invalidateTempSLAACAddrs e rest tempAddrs1 s1))"

definition cleanupSLAACPrefixResources ::
  "env \<Rightarrow> Subnet \<Rightarrow> slaacPrefixState \<Rightarrow> ndpState \<Rightarrow> ndpState option" where
  "cleanupSLAACPrefixResources e prefix state s =
    (case invalidateTempSLAACAddrs e (map fst (tempAddrs state)) (tempAddrs state) s of
       None \<Rightarrow> None
     | Some (tempAddrs1, s1) \<Rightarrow>
         Some (s1\<lparr>slaacPrefixes := AList.delete prefix (slaacPrefixes s1)\<rparr>))"

definition invalidateSLAACPrefix ::
  "env \<Rightarrow> Subnet \<Rightarrow> slaacPrefixState \<Rightarrow> ndpState \<Rightarrow> ndpState option" where
  "invalidateSLAACPrefix e prefix state s =
    (case cleanupSLAACPrefixResources e prefix state s of
       None \<Rightarrow> None
     | Some s1 \<Rightarrow>
         (case stableAddr_addressEndpoint state of
            None \<Rightarrow> Some s1
          | Some addressEndpoint \<Rightarrow>
              (case removePermanentEndpointLocked e addressEndpoint s1 of
                 (Some err, s2) \<Rightarrow> None
               | (None, s2) \<Rightarrow> Some s2)))"

definition cleanupSLAACAddrResourcesAndNotify ::
  "env \<Rightarrow> AddressWithPrefix \<Rightarrow> bool \<Rightarrow> ndpState \<Rightarrow> ndpState option" where
  "cleanupSLAACAddrResourcesAndNotify e addr invalidatePrefix s =
    (let s1 = notify e (\<lambda>n. OnAutoGenAddressInvalidated n addr) s;
         prefix = Subnet_of e addr
     in
       case map_of (slaacPrefixes s1) prefix of
         None \<Rightarrow> Some s1
       | Some state \<Rightarrow>
           (case stableAddr_addressEndpoint state of
              None \<Rightarrow> Some s1
            | Some h \<Rightarrow>
                if Address addr \<noteq> Address (addrWithPrefix (endpoints s1 h)) then Some s1
                else if \<not> invalidatePrefix then
                  Some (s1\<lparr>slaacPrefixes := AList.update prefix
                              (state\<lparr>stableAddr_addressEndpoint := None\<rparr>) (slaacPrefixes s1)\<rparr>)
                else cleanupSLAACPrefixResources e prefix state s1))"

definition cleanupTempSLAACAddrResourcesAndNotify ::
  "env \<Rightarrow> AddressWithPrefix \<Rightarrow> bool \<Rightarrow> ndpState \<Rightarrow> ndpState option" where
  "cleanupTempSLAACAddrResourcesAndNotify e addr invalidateAddr s =
    (let s1 = notify e (\<lambda>n. OnAutoGenAddressInvalidated n addr) s in
     if \<not> invalidateAddr then Some s1
     else
       let prefix = Subnet_of e addr in
       case map_of (slaacPrefixes s1) prefix of
         None \<Rightarrow> None
       | Some state \<Rightarrow>
           (case map_of (tempAddrs state) (Address addr) of
              None \<Rightarrow> None
            | Some tempAddrState \<Rightarrow>
                Some (s1\<lparr>slaacPrefixes := AList.update prefix
                            (state\<lparr>tempAddrs := cleanupTempSLAACAddrResources (tempAddrs state)
                                                    (Address addr) tempAddrState\<rparr>)
                            (slaacPrefixes s1)\<rparr>)))"

definition regenerateSLAACAddr :: "env \<Rightarrow> Subnet \<Rightarrow> ndpState \<Rightarrow> ndpState option" where
  "regenerateSLAACAddr e prefix s =
    (case map_of (slaacPrefixes s) prefix of
       None \<Rightarrow> None
     | Some state \<Rightarrow>
         (case generateSLAACAddr e prefix state s of
            None \<Rightarrow> None
          | Some (True, state1, s1) \<Rightarrow>
              Some (s1\<lparr>slaacPrefixes := AList.update prefix state1 (slaacPrefixes s1)\<rparr>)
          | Some (False, state1, s1) \<Rightarrow> invalidateSLAACPrefix e prefix state1 s1))"

text \<open>
  One round of the loop of \<^verbatim>\<open>refreshSLAACPrefixLifetimes\<close> over the temporary
  addresses (lines 1527 to 1582). The loop carries the prefix state (for its map of
  temporary addresses), the state, \<^verbatim>\<open>regenForAddr\<close> and \<^verbatim>\<open>allAddressesRegenerated\<close>;
  \<open>t\<close> is the function's \<^verbatim>\<open>now\<close>. The jobs of the entry are pointers in Go, so the
  round stores the entry with its rescheduled jobs.
\<close>

definition refreshTempAddr ::
  "env \<Rightarrow> Time \<Rightarrow> Address \<Rightarrow> tempSLAACAddrState
     \<Rightarrow> slaacPrefixState \<times> ndpState \<times> Address \<times> bool
     \<Rightarrow> (slaacPrefixState \<times> ndpState \<times> Address \<times> bool) option" where
  "refreshTempAddr e t tempAddr tempAddrState acc =
    (case acc of (prefixState, s, regenForAddr, allAddressesRegenerated) \<Rightarrow>
      let validUntil0 = Add (createdAt tempAddrState) (MaxTempAddrValidLifetime (configs s));
          validUntil1 =
            (if validUntil prefixState \<noteq> 0 \<and> Sub validUntil0 (validUntil prefixState) > 0
             then validUntil prefixState else validUntil0);
          newValidLifetime = Sub validUntil1 t
      in
      if newValidLifetime \<le> 0 then
        (case invalidateTempSLAACAddr e (tempAddrs prefixState) tempAddr tempAddrState s of
           None \<Rightarrow> None
         | Some (tempAddrs1, s1) \<Rightarrow>
             Some (prefixState\<lparr>tempAddrs := tempAddrs1\<rparr>, s1, regenForAddr,
                   allAddressesRegenerated))
      else
        let preferredUntil0 =
              Add (createdAt tempAddrState)
                (MaxTempAddrPreferredLifetime (configs s) - temporaryAddressDesyncFactor s);
            preferredUntil1 =
              (if preferredUntil prefixState \<noteq> 0
                  \<and> Sub preferredUntil0 (preferredUntil prefixState) > 0
               then preferredUntil prefixState else preferredUntil0);
            newPreferredLifetime = Sub preferredUntil1 t
        in
        (case (if newPreferredLifetime \<le> 0
               then deprecateSLAACAddress e (Some (tmp_addressEndpoint tempAddrState)) s
               else Some (SetDeprecated (tmp_addressEndpoint tempAddrState) False s)) of
           None \<Rightarrow> None
         | Some s1 \<Rightarrow>
             let regenSoon = (newPreferredLifetime \<le> RegenAdvanceDuration (configs s1));
                 tempAddrState1 = tempAddrState
                   \<lparr>tmp_invalidationJob := Schedule t newValidLifetime,
                    tmp_deprecationJob :=
                      (if newPreferredLifetime \<le> 0 then Cancel
                       else Schedule t newPreferredLifetime),
                    regenJob :=
                      (if regenerated tempAddrState \<or> regenSoon then Cancel
                       else Schedule t (newPreferredLifetime - RegenAdvanceDuration (configs s1)))\<rparr>
             in
               Some (prefixState\<lparr>tempAddrs :=
                       AList.update tempAddr tempAddrState1 (tempAddrs prefixState)\<rparr>,
                     s1,
                     (if \<not> regenerated tempAddrState \<and> regenSoon then tempAddr else regenForAddr),
                     (if regenerated tempAddrState then allAddressesRegenerated else False))))"

fun refreshTempAddrs ::
  "env \<Rightarrow> Time \<Rightarrow> Address list \<Rightarrow> slaacPrefixState \<times> ndpState \<times> Address \<times> bool
     \<Rightarrow> (slaacPrefixState \<times> ndpState \<times> Address \<times> bool) option" where
  "refreshTempAddrs e t [] acc = Some acc"
| "refreshTempAddrs e t (tempAddr # rest) acc =
    (case map_of (tempAddrs (fst acc)) tempAddr of
       None \<Rightarrow> refreshTempAddrs e t rest acc
     | Some tempAddrState \<Rightarrow>
         (case refreshTempAddr e t tempAddr tempAddrState acc of
            None \<Rightarrow> None
          | Some acc1 \<Rightarrow> refreshTempAddrs e t rest acc1))"

text \<open>
  The valid lifetime rule of \<^verbatim>\<open>refreshSLAACPrefixLifetimes\<close> (lines 1487 to 1515), on the
  prefix state behind the pointer; \<open>t\<close> is \<^verbatim>\<open>now\<close> and also the clock \<^verbatim>\<open>time.Until\<close>
  reads.
\<close>

definition refreshValidLifetime :: "Time \<Rightarrow> Duration \<Rightarrow> slaacPrefixState \<Rightarrow> slaacPrefixState" where
  "refreshValidLifetime t vl prefixState =
    (if vl \<ge> NDPInfiniteLifetime
     then prefixState\<lparr>invalidationJob := Cancel, validUntil := 0\<rparr>
     else
       let rl = (if validUntil prefixState = 0 then NDPInfiniteLifetime
                 else Sub (validUntil prefixState) t);
           effectiveVl =
             (if vl > MinPrefixInformationValidLifetimeForUpdate \<or> vl > rl then vl
              else if rl > MinPrefixInformationValidLifetimeForUpdate
                then MinPrefixInformationValidLifetimeForUpdate
              else 0)
       in
         if effectiveVl \<noteq> 0
         then prefixState\<lparr>invalidationJob := Schedule t effectiveVl,
                validUntil := Add t effectiveVl\<rparr>
         else prefixState)"

text \<open>
  The preferred lifetime part (lines 1460 to 1474), after the stable address's
  deprecated flag is settled.
\<close>

definition refreshPreferredLifetime :: "Time \<Rightarrow> Duration \<Rightarrow> slaacPrefixState \<Rightarrow> slaacPrefixState" where
  "refreshPreferredLifetime t pl prefixState =
    (if pl < NDPInfiniteLifetime
     then prefixState\<lparr>deprecationJob := (if pl \<noteq> 0 then Schedule t pl else Cancel),
            preferredUntil := Add t pl\<rparr>
     else prefixState\<lparr>deprecationJob := Cancel, preferredUntil := 0\<rparr>)"

text \<open>
  The result of \<^verbatim>\<open>refreshSLAACPrefixLifetimes\<close>: the prefix state behind the pointer and
  the state.
\<close>

definition refreshSLAACPrefixLifetimes ::
  "env \<Rightarrow> Subnet \<Rightarrow> slaacPrefixState \<Rightarrow> Duration \<Rightarrow> Duration \<Rightarrow> ndpState
     \<Rightarrow> (slaacPrefixState \<times> ndpState) option" where
  "refreshSLAACPrefixLifetimes e prefix prefixState0 pl vl s =
    (case stableAddr_addressEndpoint prefixState0 of
       None \<Rightarrow> None
     | Some stableEndpoint \<Rightarrow>
        (case (if pl = 0 then deprecateSLAACAddress e (Some stableEndpoint) s
               else Some (SetDeprecated stableEndpoint False s)) of
           None \<Rightarrow> None
         | Some s1 \<Rightarrow>
             let t = now s1;
                 prefixState =
                   refreshValidLifetime t vl (refreshPreferredLifetime t pl prefixState0)
             in
             if GetKind s1 stableEndpoint \<noteq> Permanent then Some (prefixState, s1)
             else
               (case refreshTempAddrs e t (map fst (tempAddrs prefixState))
                       (prefixState, s1, [], True) of
                  None \<Rightarrow> None
                | Some (prefixState1, s2, regenForAddr, allAddressesRegenerated) \<Rightarrow>
                    if regenForAddr \<noteq> [] \<or> allAddressesRegenerated then
                      (let state = map_of (tempAddrs prefixState1) regenForAddr in
                       case generateTempSLAACAddr e prefix prefixState1 True s2 of
                         None \<Rightarrow> None
                       | Some (generated, prefixState2, s3) \<Rightarrow>
                           (case state of
                              Some st \<Rightarrow>
                                if generated then
                                  Some (prefixState2\<lparr>tempAddrs :=
                                          AList.update regenForAddr (st\<lparr>regenerated := True\<rparr>)
                                            (tempAddrs prefixState2)\<rparr>, s3)
                                else Some (prefixState2, s3)
                            | None \<Rightarrow> Some (prefixState2, s3)))
                    else Some (prefixState1, s2))))"

definition doSLAAC :: "env \<Rightarrow> Subnet \<Rightarrow> Duration \<Rightarrow> Duration \<Rightarrow> ndpState \<Rightarrow> ndpState option" where
  "doSLAAC e prefix pl vl s =
    (if vl = 0 then Some s
     else if Prefix prefix \<noteq> validPrefixLenForAutoGen then Some s
     else
       let state0 = \<lparr>deprecationJob = None, invalidationJob = None, validUntil = 0,
                     preferredUntil = 0, stableAddr_addressEndpoint = None,
                     stableAddr_localGenerationFailures = 0, tempAddrs = [],
                     generationAttempts = 0,
                     maxGenerationAttempts = AutoGenAddressConflictRetries (configs s) + 1\<rparr>;
           t = now s;
           state1 = (if pl < NDPInfiniteLifetime then state0\<lparr>preferredUntil := Add t pl\<rparr>
                     else state0)
       in
         case generateSLAACAddr e prefix state1 s of
           None \<Rightarrow> None
         | Some (False, state2, s1) \<Rightarrow> Some s1
         | Some (True, state2, s1) \<Rightarrow>
             let state3 = (if pl < NDPInfiniteLifetime \<and> pl \<noteq> 0
                           then state2\<lparr>deprecationJob := Schedule (now s1) pl\<rparr> else state2);
                 state4 = (if vl < NDPInfiniteLifetime
                           then state3\<lparr>invalidationJob := Schedule (now s1) vl,
                                  validUntil := Add t vl\<rparr>
                           else state3)
             in
               (case stableAddr_addressEndpoint state4 of
                  None \<Rightarrow> None
                | Some stableEndpoint \<Rightarrow>
                    if GetKind s1 stableEndpoint = Permanent then
                      (case generateTempSLAACAddr e prefix state4 True s1 of
                         None \<Rightarrow> None
                       | Some (generated, state5, s2) \<Rightarrow>
                           Some (s2\<lparr>slaacPrefixes :=
                                   AList.update prefix state5 (slaacPrefixes s2)\<rparr>))
                    else Some (s1\<lparr>slaacPrefixes :=
                                 AList.update prefix state4 (slaacPrefixes s1)\<rparr>)))"

definition handleAutonomousPrefixInformation ::
  "env \<Rightarrow> NDPPrefixInformation \<Rightarrow> ndpState \<Rightarrow> ndpState option" where
  "handleAutonomousPrefixInformation e pi s =
    (let vl = ValidLifetime pi;
         pl = PreferredLifetime pi
     in
       if pl > vl then Some s
       else
         let prefix = pi_Subnet pi in
         case map_of (slaacPrefixes s) prefix of
           Some state \<Rightarrow>
             (case refreshSLAACPrefixLifetimes e prefix state pl vl s of
                None \<Rightarrow> None
              | Some (state1, s1) \<Rightarrow>
                  Some (s1\<lparr>slaacPrefixes := AList.update prefix state1 (slaacPrefixes s1)\<rparr>))
         | None \<Rightarrow>
             if \<not> AutoGenGlobalAddresses (configs s) then Some s
             else doSLAAC e prefix pl vl s)"

subsection \<open>handleRA (lines 765 to 883)\<close>

text \<open>
  A Router Advertisement as the file reads it: the two flags, the router lifetime and
  the options, of which it handles three kinds.
\<close>

datatype NDPOption =
    NDPRecursiveDNSServer "Address list" Duration
  | NDPDNSSearchList "string list" Duration
  | NDPPrefixInformation NDPPrefixInformation
  | NDPOtherOption

record NDPRouterAdvert =
  ManagedAddrConfFlag :: bool
  OtherConfFlag :: bool
  RouterLifetime :: Duration
  Options :: "NDPOption list"

text \<open>
  The default router part of \<^verbatim>\<open>handleRA\<close> (lines 802 to 828).
\<close>

definition handleRA_defaultRouter :: "env \<Rightarrow> Address \<Rightarrow> Duration \<Rightarrow> ndpState \<Rightarrow> ndpState" where
  "handleRA_defaultRouter e ip rl s =
    (if DiscoverDefaultRouters (configs s) then
       (case map_of (defaultRouters s) ip of
          None \<Rightarrow>
            if rl \<noteq> 0 then
              (if length (defaultRouters s) < MaxDiscoveredDefaultRouters
               then rememberDefaultRouter e ip rl s else s)
            else s
        | Some rtr \<Rightarrow>
            if rl \<noteq> 0 then
              s\<lparr>defaultRouters := AList.update ip
                   (rtr\<lparr>rtr_invalidationJob := Schedule (now s) rl\<rparr>) (defaultRouters s)\<rparr>
            else invalidateDefaultRouter e ip s)
     else s)"

text \<open>
  One round of the loop over the options (lines 837 to 882).
\<close>

definition handleRA_option :: "env \<Rightarrow> NDPOption \<Rightarrow> ndpState \<Rightarrow> ndpState option" where
  "handleRA_option e opt s =
    (case opt of
       NDPRecursiveDNSServer addrs lifetime \<Rightarrow>
         Some (notify e (\<lambda>n. OnRecursiveDNSServerOption n addrs lifetime) s)
     | NDPDNSSearchList domainNames lifetime \<Rightarrow>
         Some (notify e (\<lambda>n. OnDNSSearchListOption n domainNames lifetime) s)
     | NDPPrefixInformation pi \<Rightarrow>
         let prefix = pi_Subnet pi in
         if IsV6LinkLocalAddress (ID prefix) then Some s
         else if Prefix prefix = 0 then Some s
         else
           let s1 = (if OnLinkFlag pi then handleOnLinkPrefixInformation e pi s else s) in
           if AutonomousAddressConfigurationFlag pi
           then handleAutonomousPrefixInformation e pi s1 else Some s1
     | NDPOtherOption \<Rightarrow> Some s)"

fun handleRA_options :: "env \<Rightarrow> NDPOption list \<Rightarrow> ndpState \<Rightarrow> ndpState option" where
  "handleRA_options e [] s = Some s"
| "handleRA_options e (opt # rest) s =
    (case handleRA_option e opt s of
       None \<Rightarrow> None
     | Some s1 \<Rightarrow> handleRA_options e rest s1)"

definition handleRA :: "env \<Rightarrow> Address \<Rightarrow> NDPRouterAdvert \<Rightarrow> ndpState \<Rightarrow> ndpState option" where
  "handleRA e ip ra s =
    (if \<not> HandleRAs (configs s) \<or> Forwarding e then Some s
     else
       let s1 =
             (case NDPDisp e of
                None \<Rightarrow> s
              | Some ndpDisp \<Rightarrow>
                  let configuration =
                        (if ManagedAddrConfFlag ra then DHCPv6ManagedAddress
                         else if OtherConfFlag ra then DHCPv6OtherConfigurations
                         else DHCPv6NoConfiguration)
                  in
                    if dhcpv6Configuration s \<noteq> configuration
                    then s\<lparr>dhcpv6Configuration := configuration,
                           events := events s @ [OnDHCPv6Configuration (nicID e) configuration]\<rparr>
                    else s);
           s2 = handleRA_defaultRouter e ip (RouterLifetime ra) s1
       in handleRA_options e (Options ra) s2)"

subsection \<open>Teardown (lines 1733 to 1789)\<close>

text \<open>
  The loop of \<^verbatim>\<open>removeSLAACAddresses\<close>; it carries \<^verbatim>\<open>linkLocalPrefixes\<close>.
\<close>

fun removeSLAACAddresses_loop ::
  "env \<Rightarrow> bool \<Rightarrow> Subnet list \<Rightarrow> nat \<Rightarrow> ndpState \<Rightarrow> (nat \<times> ndpState) option" where
  "removeSLAACAddresses_loop e keepLinkLocal [] linkLocalPrefixes s = Some (linkLocalPrefixes, s)"
| "removeSLAACAddresses_loop e keepLinkLocal (prefix # rest) linkLocalPrefixes s =
    (case map_of (slaacPrefixes s) prefix of
       None \<Rightarrow> removeSLAACAddresses_loop e keepLinkLocal rest linkLocalPrefixes s
     | Some state \<Rightarrow>
         if keepLinkLocal \<and> prefix = IPv6LinkLocalPrefix_Subnet
         then removeSLAACAddresses_loop e keepLinkLocal rest (linkLocalPrefixes + 1) s
         else
           (case invalidateSLAACPrefix e prefix state s of
              None \<Rightarrow> None
            | Some s1 \<Rightarrow> removeSLAACAddresses_loop e keepLinkLocal rest linkLocalPrefixes s1))"

definition removeSLAACAddresses :: "env \<Rightarrow> bool \<Rightarrow> ndpState \<Rightarrow> ndpState option" where
  "removeSLAACAddresses e keepLinkLocal s =
    (case removeSLAACAddresses_loop e keepLinkLocal (map fst (slaacPrefixes s)) 0 s of
       None \<Rightarrow> None
     | Some (linkLocalPrefixes, s1) \<Rightarrow>
         if length (slaacPrefixes s1) \<noteq> linkLocalPrefixes then None else Some s1)"

definition cleanupState :: "env \<Rightarrow> bool \<Rightarrow> ndpState \<Rightarrow> ndpState option" where
  "cleanupState e hostOnly s =
    (case removeSLAACAddresses e hostOnly s of
       None \<Rightarrow> None
     | Some s1 \<Rightarrow>
         let s2 = fold (invalidateOnLinkPrefix e) (map fst (onLinkPrefixes s1)) s1 in
         if length (onLinkPrefixes s2) \<noteq> 0 then None
         else
           let s3 = fold (invalidateDefaultRouter e) (map fst (defaultRouters s2)) s2 in
           if length (defaultRouters s3) \<noteq> 0 then None
           else Some (s3\<lparr>dhcpv6Configuration := 0\<rparr>))"

subsection \<open>Router Solicitation (lines 1791 to 1885)\<close>

definition startSolicitingRouters :: "env \<Rightarrow> ndpState \<Rightarrow> ndpState" where
  "startSolicitingRouters e s =
    (if rtrSolicitJob s \<noteq> None then s
     else
       let remaining = MaxRtrSolicitations (configs s) in
       if remaining = 0 then s
       else
         let delay = (if MaxRtrSolicitationDelay (configs s) > 0
                      then rand_Int63n e (MaxRtrSolicitationDelay (configs s)) else 0)
         in s\<lparr>rtrSolicitJob := Some \<lparr>rs_job = Schedule (now s) delay, rs_remaining = remaining\<rparr>\<rparr>)"

definition stopSolicitingRouters :: "ndpState \<Rightarrow> ndpState" where
  "stopSolicitingRouters s = (if rtrSolicitJob s = None then s else s\<lparr>rtrSolicitJob := None\<rparr>)"

subsection \<open>The bodies of the jobs\<close>

text \<open>
  The closure \<^verbatim>\<open>startDuplicateAddressDetection\<close> gives its job (lines 650 to 696);
  \<open>txerr\<close> is the NIC's answer should the body send a Neighbor Solicitation.
\<close>

definition dadJob :: "env \<Rightarrow> Address \<Rightarrow> tcpip_Error option \<Rightarrow> ndpState \<Rightarrow> ndpState option" where
  "dadJob e addr txerr s =
    (case map_of (dad s) addr of
       None \<Rightarrow> None
     | Some state \<Rightarrow>
         let addressEndpoint = dad_addressEndpoint state;
             remaining = dad_remaining state
         in
         if GetKind s addressEndpoint \<noteq> PermanentTentative then None
         else
           let dadDone = (remaining = 0);
               sent = (if \<not> dadDone then sendDADPacket addr txerr s else (None, s));
               err = fst sent;
               s1 = snd sent
           in
           if \<not> dadDone \<and> err = None then
             Some (s1\<lparr>dad := AList.update addr
                          (state\<lparr>dad_remaining := remaining - 1,
                                 dad_job := Schedule (now s1) (RetransmitTimer (configs s1))\<rparr>)
                          (dad s1)\<rparr>)
           else
             let s2 = (if dadDone then SetKind addressEndpoint Permanent s1 else s1);
                 s3 = notify e (\<lambda>n. OnDuplicateAddressDetectionStatus n addr dadDone err)
                        (s2\<lparr>dad := AList.delete addr (dad s2)\<rparr>)
             in
             if dadDone \<and> ConfigType (endpoints s3 addressEndpoint) = AddressConfigSlaac
             then regenerateTempSLAACAddr e
                    (Subnet_of e (addrWithPrefix (endpoints s3 addressEndpoint))) True s3
             else Some s3)"

text \<open>
  The closures \<^verbatim>\<open>doSLAAC\<close> gives the two jobs of a prefix (lines 1101 to 1116).
\<close>

definition slaacDeprecationJob :: "env \<Rightarrow> Subnet \<Rightarrow> ndpState \<Rightarrow> ndpState option" where
  "slaacDeprecationJob e prefix s =
    (case map_of (slaacPrefixes s) prefix of
       None \<Rightarrow> None
     | Some state \<Rightarrow> deprecateSLAACAddress e (stableAddr_addressEndpoint state) s)"

definition slaacInvalidationJob :: "env \<Rightarrow> Subnet \<Rightarrow> ndpState \<Rightarrow> ndpState option" where
  "slaacInvalidationJob e prefix s =
    (case map_of (slaacPrefixes s) prefix of
       None \<Rightarrow> None
     | Some state \<Rightarrow> invalidateSLAACPrefix e prefix state s)"

text \<open>
  The closures \<^verbatim>\<open>generateTempSLAACAddr\<close> gives the three jobs of a temporary address
  (lines 1370 to 1418). The invalidation deletes the entry from the map the prefix state
  holds, so the prefix's entry is stored with the map after the call.
\<close>

definition tempDeprecationJob :: "env \<Rightarrow> Subnet \<Rightarrow> Address \<Rightarrow> ndpState \<Rightarrow> ndpState option" where
  "tempDeprecationJob e prefix generatedAddr s =
    (case map_of (slaacPrefixes s) prefix of
       None \<Rightarrow> None
     | Some prefixState \<Rightarrow>
         (case map_of (tempAddrs prefixState) generatedAddr of
            None \<Rightarrow> None
          | Some tempAddrState \<Rightarrow>
              deprecateSLAACAddress e (Some (tmp_addressEndpoint tempAddrState)) s))"

definition tempInvalidationJob :: "env \<Rightarrow> Subnet \<Rightarrow> Address \<Rightarrow> ndpState \<Rightarrow> ndpState option" where
  "tempInvalidationJob e prefix generatedAddr s =
    (case map_of (slaacPrefixes s) prefix of
       None \<Rightarrow> None
     | Some prefixState \<Rightarrow>
         (case map_of (tempAddrs prefixState) generatedAddr of
            None \<Rightarrow> None
          | Some tempAddrState \<Rightarrow>
              (case invalidateTempSLAACAddr e (tempAddrs prefixState) generatedAddr tempAddrState s of
                 None \<Rightarrow> None
               | Some (tempAddrs1, s1) \<Rightarrow>
                   Some (s1\<lparr>slaacPrefixes := AList.update prefix
                               (prefixState\<lparr>tempAddrs := tempAddrs1\<rparr>) (slaacPrefixes s1)\<rparr>))))"

definition tempRegenJob :: "env \<Rightarrow> Subnet \<Rightarrow> Address \<Rightarrow> ndpState \<Rightarrow> ndpState option" where
  "tempRegenJob e prefix generatedAddr s =
    (case map_of (slaacPrefixes s) prefix of
       None \<Rightarrow> None
     | Some prefixState \<Rightarrow>
         (case map_of (tempAddrs prefixState) generatedAddr of
            None \<Rightarrow> None
          | Some tempAddrState \<Rightarrow>
              if regenerated tempAddrState then Some s
              else
                (case generateTempSLAACAddr e prefix prefixState True s of
                   None \<Rightarrow> None
                 | Some (generated, prefixState1, s1) \<Rightarrow>
                     Some (s1\<lparr>slaacPrefixes := AList.update prefix
                                 (prefixState1\<lparr>tempAddrs :=
                                    AList.update generatedAddr
                                      (tempAddrState\<lparr>regenerated := generated\<rparr>)
                                      (tempAddrs prefixState1)\<rparr>)
                                 (slaacPrefixes s1)\<rparr>))))"

text \<open>
  The closure \<^verbatim>\<open>startSolicitingRouters\<close> gives its job (lines 1813 to 1868).
  \<open>acquired\<close> is the address of the endpoint \<^verbatim>\<open>acquireOutgoingPrimaryAddressRLocked\<close>
  returns (\<open>None\<close> for \<^verbatim>\<open>nil\<close>), \<open>txerr\<close> the NIC's answer. The job is
  \<^verbatim>\<open>ndp.rtrSolicitJob\<close>; the body runs for a job that is set.
\<close>

definition rtrSolicitJobBody ::
  "env \<Rightarrow> Address option \<Rightarrow> tcpip_Error option \<Rightarrow> ndpState \<Rightarrow> ndpState option" where
  "rtrSolicitJobBody e acquired txerr s =
    (case rtrSolicitJob s of
       None \<Rightarrow> None
     | Some j \<Rightarrow>
         let localAddr = (case acquired of None \<Rightarrow> IPv6Any | Some a \<Rightarrow> a);
             optsSerializer =
               (if localAddr \<noteq> IPv6Any \<and> IsValidUnicastEthernetAddress e (LinkAddress e)
                then [LinkAddress e] else []);
             s1 = s\<lparr>packets := packets s @ [(RouterSolicit localAddr optsSerializer, txerr)]\<rparr>;
             remaining = (if txerr \<noteq> None then 0 else rs_remaining j - 1)
         in
           Some (s1\<lparr>rtrSolicitJob := Some
                   (j\<lparr>rs_remaining := remaining,
                      rs_job := (if remaining \<noteq> 0
                                 then Schedule (now s1) (RtrSolicitationInterval (configs s1))
                                 else rs_job j)\<rparr>)\<rparr>))"

subsection \<open>Operations on an interface\<close>

text \<open>
  What can happen to an interface's NDP state: a call from the network layer (the
  spec's section 6), the clock advancing, or the runtime running a job. The runtime
  runs the body of a job that is pending and due, and of no other; the job is no longer
  pending when its body runs.
\<close>

datatype op =
    HandleRA Address NDPRouterAdvert
  | StartDAD Address nat
  | StopDAD Address
  | StartSolicitingRouters
  | StopSolicitingRouters
  | CleanupState bool
  | Tick Duration
  | FireDAD Address "tcpip_Error option"
  | FireRouterInvalidation Address
  | FireOnLinkPrefixInvalidation Subnet
  | FireSLAACDeprecation Subnet
  | FireSLAACInvalidation Subnet
  | FireTempDeprecation Subnet Address
  | FireTempInvalidation Subnet Address
  | FireTempRegen Subnet Address
  | FireRtrSolicit "Address option" "tcpip_Error option"

definition fireTempJob ::
  "(tempSLAACAddrState \<Rightarrow> Job) \<Rightarrow> (tempSLAACAddrState \<Rightarrow> tempSLAACAddrState)
     \<Rightarrow> (ndpState \<Rightarrow> ndpState option) \<Rightarrow> Subnet \<Rightarrow> Address \<Rightarrow> ndpState \<Rightarrow> ndpState option" where
  "fireTempJob job clear body prefix addr s =
    (case map_of (slaacPrefixes s) prefix of
       None \<Rightarrow> Some s
     | Some prefixState \<Rightarrow>
         (case map_of (tempAddrs prefixState) addr of
            None \<Rightarrow> Some s
          | Some tempAddrState \<Rightarrow>
              if due (now s) (job tempAddrState) then
                body (s\<lparr>slaacPrefixes := AList.update prefix
                          (prefixState\<lparr>tempAddrs :=
                             AList.update addr (clear tempAddrState) (tempAddrs prefixState)\<rparr>)
                          (slaacPrefixes s)\<rparr>)
              else Some s))"

definition step :: "env \<Rightarrow> op \<Rightarrow> ndpState \<Rightarrow> ndpState option" where
  "step e operation s =
    (case operation of
       HandleRA ip ra \<Rightarrow> handleRA e ip ra s
     | StartDAD addr addressEndpoint \<Rightarrow>
         map_option snd (startDuplicateAddressDetection e addr addressEndpoint s)
     | StopDAD addr \<Rightarrow> Some (stopDuplicateAddressDetection e addr s)
     | StartSolicitingRouters \<Rightarrow> Some (startSolicitingRouters e s)
     | StopSolicitingRouters \<Rightarrow> Some (stopSolicitingRouters s)
     | CleanupState hostOnly \<Rightarrow> cleanupState e hostOnly s
     | Tick d \<Rightarrow> Some (if 0 \<le> d then s\<lparr>now := Add (now s) d\<rparr> else s)
     | FireDAD addr txerr \<Rightarrow>
         (case map_of (dad s) addr of
            None \<Rightarrow> Some s
          | Some state \<Rightarrow>
              if due (now s) (dad_job state)
              then dadJob e addr txerr
                     (s\<lparr>dad := AList.update addr (state\<lparr>dad_job := None\<rparr>) (dad s)\<rparr>)
              else Some s)
     | FireRouterInvalidation ip \<Rightarrow>
         (case map_of (defaultRouters s) ip of
            None \<Rightarrow> Some s
          | Some rtr \<Rightarrow>
              if due (now s) (rtr_invalidationJob rtr)
              then Some (invalidateDefaultRouter e ip s) else Some s)
     | FireOnLinkPrefixInvalidation prefix \<Rightarrow>
         (case map_of (onLinkPrefixes s) prefix of
            None \<Rightarrow> Some s
          | Some st \<Rightarrow>
              if due (now s) (olp_invalidationJob st)
              then Some (invalidateOnLinkPrefix e prefix s) else Some s)
     | FireSLAACDeprecation prefix \<Rightarrow>
         (case map_of (slaacPrefixes s) prefix of
            None \<Rightarrow> Some s
          | Some state \<Rightarrow>
              if due (now s) (deprecationJob state)
              then slaacDeprecationJob e prefix
                     (s\<lparr>slaacPrefixes := AList.update prefix
                           (state\<lparr>deprecationJob := None\<rparr>) (slaacPrefixes s)\<rparr>)
              else Some s)
     | FireSLAACInvalidation prefix \<Rightarrow>
         (case map_of (slaacPrefixes s) prefix of
            None \<Rightarrow> Some s
          | Some state \<Rightarrow>
              if due (now s) (invalidationJob state)
              then slaacInvalidationJob e prefix
                     (s\<lparr>slaacPrefixes := AList.update prefix
                           (state\<lparr>invalidationJob := None\<rparr>) (slaacPrefixes s)\<rparr>)
              else Some s)
     | FireTempDeprecation prefix addr \<Rightarrow>
         fireTempJob tmp_deprecationJob (\<lambda>st. st\<lparr>tmp_deprecationJob := None\<rparr>)
           (tempDeprecationJob e prefix addr) prefix addr s
     | FireTempInvalidation prefix addr \<Rightarrow>
         fireTempJob tmp_invalidationJob (\<lambda>st. st\<lparr>tmp_invalidationJob := None\<rparr>)
           (tempInvalidationJob e prefix addr) prefix addr s
     | FireTempRegen prefix addr \<Rightarrow>
         fireTempJob regenJob (\<lambda>st. st\<lparr>regenJob := None\<rparr>)
           (tempRegenJob e prefix addr) prefix addr s
     | FireRtrSolicit acquired txerr \<Rightarrow>
         (case rtrSolicitJob s of
            None \<Rightarrow> Some s
          | Some j \<Rightarrow>
              if due (now s) (rs_job j)
              then rtrSolicitJobBody e acquired txerr (s\<lparr>rtrSolicitJob := Some (j\<lparr>rs_job := None\<rparr>)\<rparr>)
              else Some s))"

fun run :: "env \<Rightarrow> op list \<Rightarrow> ndpState \<Rightarrow> ndpState option" where
  "run e [] s = Some s"
| "run e (operation # rest) s =
    (case step e operation s of
       None \<Rightarrow> None
     | Some s1 \<Rightarrow> run e rest s1)"

subsection \<open>What the SLAAC and DAD functions leave alone\<close>

text \<open>
  The Router Solicitations among the packets, the discovery callbacks among the events,
  and the part of the state that only \<^verbatim>\<open>handleRA\<close>, the router and on-link prefix
  functions, the router solicitation functions and the clock change.
\<close>

fun isRouterSolicit :: "packet \<times> tcpip_Error option \<Rightarrow> bool" where
  "isRouterSolicit (RouterSolicit src opts, r) = True"
| "isRouterSolicit (NeighborSolicit target, r) = False"

fun isDiscovered :: "event \<Rightarrow> bool" where
  "isDiscovered (OnDefaultRouterDiscovered n ip) = True"
| "isDiscovered (OnOnLinkPrefixDiscovered n prefix) = True"
| "isDiscovered ev = False"

definition rsPackets :: "ndpState \<Rightarrow> (packet \<times> tcpip_Error option) list" where
  "rsPackets s = filter isRouterSolicit (packets s)"

definition discoveredEvents :: "ndpState \<Rightarrow> event list" where
  "discoveredEvents s = filter isDiscovered (events s)"

definition core ::
  "ndpState \<Rightarrow> NDPConfigurations \<times> (Address \<times> defaultRouterState) list
     \<times> (Subnet \<times> onLinkPrefixState) list \<times> rtrSolicitJobState option
     \<times> DHCPv6ConfigurationFromNDPRA \<times> Time \<times> Duration
     \<times> (packet \<times> tcpip_Error option) list \<times> event list" where
  "core s = (configs s, defaultRouters s, onLinkPrefixes s, rtrSolicitJob s,
             dhcpv6Configuration s, now s, temporaryAddressDesyncFactor s,
             rsPackets s, discoveredEvents s)"

subsection \<open>A concrete interface\<close>

text \<open>
  An environment and states to run the functions on: a NIC with an Ethernet address and
  a dispatcher that accepts every discovery; the address \<open>2001:db8::1\<close>, the multicast
  address \<open>ff02::1\<close>, the prefix \<open>2001:db8::/64\<close> and the routers
  \<open>fe80::1\<close>, \<open>fe80::2\<close>, ...
\<close>

definition exampleDispatcher :: NDPDispatcher where
  "exampleDispatcher =
     \<lparr>DefaultRouterDiscovered_ret = (\<lambda>ip. True),
      OnLinkPrefixDiscovered_ret = (\<lambda>prefix. True),
      AutoGenAddress_ret = (\<lambda>addr. True)\<rparr>"

definition exampleEnv :: env where
  "exampleEnv =
     \<lparr>nicID = 1, nicName = ''nic0'', LinkAddress = [2, 3, 4, 5, 6, 7], Forwarding = False,
      NDPDisp = Some exampleDispatcher, NICNameFromID = None, SecretKey = [],
      IsV6UnicastAddress = (\<lambda>a. length a = 16 \<and> a \<noteq> IPv6Any \<and> hd a \<noteq> 255),
      IsValidUnicastEthernetAddress = (\<lambda>l. length l = 6 \<and> l \<noteq> [0, 0, 0, 0, 0, 0] \<and> even (hd l)),
      AppendOpaqueInterfaceIdentifier =
        (\<lambda>buf prefix name dadCounter key. buf @ [0, 0, 0, 0, 0, 0, 0, dadCounter + 1]),
      EthernetAdddressToModifiedEUI64IntoBuf =
        (\<lambda>l buf. [hd l + 2, l ! 1, l ! 2, 255, 254, l ! 3, l ! 4, l ! 5]),
      GenerateTempIPv6SLAACAddr =
        (\<lambda>history stableAddr.
           (map (\<lambda>b. b + 1) history,
            AddressWithPrefix (take 8 stableAddr @ map (\<lambda>b. b + 1) history) 64)),
      Subnet_of = (\<lambda>a. Subnet (take 8 (Address a) @ [0, 0, 0, 0, 0, 0, 0, 0]) (PrefixLen a)),
      rand_Int63n = (\<lambda>n. 0)\<rparr>"

definition exampleAddr :: Address where
  "exampleAddr = [32, 1, 13, 184, 0, 0, 0, 0, 0, 0, 0, 0, 0, 0, 0, 1]"

definition exampleMulticastAddr :: Address where
  "exampleMulticastAddr = [255, 2, 0, 0, 0, 0, 0, 0, 0, 0, 0, 0, 0, 0, 0, 1]"

definition examplePrefix :: Subnet where
  "examplePrefix = Subnet [32, 1, 13, 184, 0, 0, 0, 0, 0, 0, 0, 0, 0, 0, 0, 0] 64"

definition exampleRouter :: "8 word \<Rightarrow> Address" where
  "exampleRouter n = [254, 128, 0, 0, 0, 0, 0, 0, 0, 0, 0, 0, 0, 0, 0, n]"

text \<open>
  An interface that owns the tentative address \<open>2001:db8::1\<close> (handle \<open>0\<close>) and has
  learnt nothing yet.
\<close>

definition exampleState :: ndpState where
  "exampleState =
     \<lparr>configs = DefaultNDPConfigurations, dad = [], defaultRouters = [],
      rtrSolicitJob = None, onLinkPrefixes = [], slaacPrefixes = [],
      dhcpv6Configuration = 0, temporaryIIDHistory = [0, 0, 0, 0, 0, 0, 0, 0],
      temporaryAddressDesyncFactor = 0, now = 1000 * Hour,
      endpoints = (\<lambda>h. \<lparr>addrWithPrefix = AddressWithPrefix exampleAddr 64,
                          Kind = PermanentTentative, ConfigType = AddressConfigStatic,
                          Deprecated = False\<rparr>),
      nextEndpoint = 1, addressTable = [(exampleAddr, 0)], events = [], packets = []\<rparr>"

text \<open>
  The interface an hour after it generated the stable address \<open>2001:db8::1\<close> (handle
  \<open>0\<close>, DAD resolved) for the prefix \<open>2001:db8::/64\<close>, advertised with a preferred
  lifetime of two hours and a valid lifetime of four: the prefix is valid for three more
  hours. No temporary address is left.
\<close>

definition exampleSLAACState :: ndpState where
  "exampleSLAACState = exampleState
     \<lparr>slaacPrefixes :=
        [(examplePrefix,
          \<lparr>deprecationJob = Some (1001 * Hour), invalidationJob = Some (1003 * Hour),
           validUntil = 1003 * Hour, preferredUntil = 1001 * Hour,
           stableAddr_addressEndpoint = Some 0, stableAddr_localGenerationFailures = 0,
           tempAddrs = [], generationAttempts = 1, maxGenerationAttempts = 1\<rparr>)],
      endpoints := (endpoints exampleState)(0 :=
        \<lparr>addrWithPrefix = AddressWithPrefix exampleAddr 64, Kind = Permanent,
         ConfigType = AddressConfigSlaac, Deprecated = False\<rparr>)\<rparr>"

definition examplePI :: "Duration \<Rightarrow> Duration \<Rightarrow> NDPPrefixInformation" where
  "examplePI pl vl =
     \<lparr>pi_Subnet = examplePrefix, ValidLifetime = vl, PreferredLifetime = pl,
      OnLinkFlag = False, AutonomousAddressConfigurationFlag = True\<rparr>"


text \<open>
  The remaining valid lifetime of a SLAAC prefix: the time from now until its
  \<^verbatim>\<open>validUntil\<close>.
\<close>

definition remainingValidLifetime :: "Subnet \<Rightarrow> ndpState \<Rightarrow> Duration option" where
  "remainingValidLifetime prefix s =
     (case map_of (slaacPrefixes s) prefix of
        None \<Rightarrow> None
      | Some state \<Rightarrow> Some (Sub (validUntil state) (now s)))"

subsection \<open>The bounded tables\<close>

definition tablesBounded :: "ndpState \<Rightarrow> bool" where
  "tablesBounded s =
     (length (defaultRouters s) \<le> MaxDiscoveredDefaultRouters
      \<and> length (onLinkPrefixes s) \<le> MaxDiscoveredOnLinkPrefixes)"

text \<open>
  The calls of \<^verbatim>\<open>OnDefaultRouterDiscovered\<close> among the events.
\<close>

fun isRouterDiscovered :: "event \<Rightarrow> bool" where
  "isRouterDiscovered (OnDefaultRouterDiscovered n ip) = True"
| "isRouterDiscovered ev = False"

definition routerDiscoveredEvents :: "ndpState \<Rightarrow> event list" where
  "routerDiscoveredEvents s = filter isRouterDiscovered (events s)"

text \<open>
  What the handling of the options of a Router Advertisement leaves alone, and what
  everything but the router solicitation functions leaves alone.
\<close>

definition rtrView ::
  "ndpState \<Rightarrow> NDPConfigurations \<times> (Address \<times> defaultRouterState) list
     \<times> rtrSolicitJobState option \<times> Time \<times> (packet \<times> tcpip_Error option) list \<times> event list" where
  "rtrView s = (configs s, defaultRouters s, rtrSolicitJob s, now s, rsPackets s,
                routerDiscoveredEvents s)"

definition rsView ::
  "ndpState \<Rightarrow> NDPConfigurations \<times> rtrSolicitJobState option
     \<times> (packet \<times> tcpip_Error option) list" where
  "rsView s = (configs s, rtrSolicitJob s, rsPackets s)"



text \<open>
  The operations that belong to DAD and SLAAC.
\<close>

fun slaacOrDADOp :: "op \<Rightarrow> bool" where
  "slaacOrDADOp (StartDAD addr addressEndpoint) = True"
| "slaacOrDADOp (StopDAD addr) = True"
| "slaacOrDADOp (FireDAD addr txerr) = True"
| "slaacOrDADOp (FireSLAACDeprecation prefix) = True"
| "slaacOrDADOp (FireSLAACInvalidation prefix) = True"
| "slaacOrDADOp (FireTempDeprecation prefix addr) = True"
| "slaacOrDADOp (FireTempInvalidation prefix addr) = True"
| "slaacOrDADOp (FireTempRegen prefix addr) = True"
| "slaacOrDADOp operation = False"

text \<open>
  A burst of Router Solicitations that may send up to \<open>bound\<close> packets in all: no job
  where none are to be sent, or a job that is pending only with solicitations left, and
  with no more left than the bound allows.
\<close>

definition burstWithin :: "nat \<Rightarrow> ndpState \<Rightarrow> bool" where
  "burstWithin bound s =
     (case rtrSolicitJob s of
        None \<Rightarrow> MaxRtrSolicitations (configs s) = 0 \<and> length (rsPackets s) \<le> bound
      | Some j \<Rightarrow>
          (case rs_job j of
             None \<Rightarrow> length (rsPackets s) \<le> bound
           | Some deadline \<Rightarrow>
               rs_remaining j \<noteq> 0
               \<and> length (rsPackets s) + unat (rs_remaining j) \<le> bound))"

text \<open>
  A burst that has ended: the job is set and not pending.
\<close>

definition burstOver :: "ndpState \<Rightarrow> bool" where
  "burstOver s = (case rtrSolicitJob s of None \<Rightarrow> False | Some j \<Rightarrow> rs_job j = None)"

text \<open>
  Router Advertisements from the routers \<open>fe80::1\<close>, \<open>fe80::2\<close>, ..., each with a
  router lifetime of thirty minutes and an on-link prefix \<open>2001:db8:0:n::/64\<close> valid for an
  hour; and the interface of \<open>exampleState\<close> after it has handled the first ten.
\<close>

definition exampleOnLinkPrefix :: "8 word \<Rightarrow> Subnet" where
  "exampleOnLinkPrefix n = Subnet [32, 1, 13, 184, 0, 0, 0, n, 0, 0, 0, 0, 0, 0, 0, 0] 64"

definition exampleOnLinkPI :: "8 word \<Rightarrow> NDPPrefixInformation" where
  "exampleOnLinkPI n =
     \<lparr>pi_Subnet = exampleOnLinkPrefix n, ValidLifetime = Hour,
      PreferredLifetime = 30 * Minute, OnLinkFlag = True,
      AutonomousAddressConfigurationFlag = False\<rparr>"

definition exampleRA :: "8 word \<Rightarrow> NDPRouterAdvert" where
  "exampleRA n =
     \<lparr>ManagedAddrConfFlag = False, OtherConfFlag = False, RouterLifetime = 30 * Minute,
      Options = [NDPPrefixInformation (exampleOnLinkPI n)]\<rparr>"

definition exampleRAs :: "op list" where
  "exampleRAs =
     map (\<lambda>n. HandleRA (exampleRouter n) (exampleRA n)) [1, 2, 3, 4, 5, 6, 7, 8, 9, 10]"

definition exampleFullState :: ndpState where
  "exampleFullState = exampleState
     \<lparr>defaultRouters :=
        map (\<lambda>n. (exampleRouter n, \<lparr>rtr_invalidationJob = Some (1000 * Hour + 30 * Minute)\<rparr>))
          [1, 2, 3, 4, 5, 6, 7, 8, 9, 10],
      onLinkPrefixes :=
        map (\<lambda>n. (exampleOnLinkPrefix n, \<lparr>olp_invalidationJob = Some (1001 * Hour)\<rparr>))
          [1, 2, 3, 4, 5, 6, 7, 8, 9, 10],
      dhcpv6Configuration := DHCPv6NoConfiguration,
      events :=
        OnDHCPv6Configuration 1 DHCPv6NoConfiguration #
        concat (map (\<lambda>n. [OnDefaultRouterDiscovered 1 (exampleRouter n),
                           OnOnLinkPrefixDiscovered 1 (exampleOnLinkPrefix n)])
                  [1, 2, 3, 4, 5, 6, 7, 8, 9, 10])\<rparr>"

text \<open>
  A burst on the interface of \<open>exampleState\<close>: the runtime runs the router solicitation
  job four times, four seconds apart, and the NIC accepts every packet.
\<close>

definition exampleBurst :: "op list" where
  "exampleBurst =
     [FireRtrSolicit None None, Tick (4 * Second),
      FireRtrSolicit None None, Tick (4 * Second),
      FireRtrSolicit None None, Tick (4 * Second),
      FireRtrSolicit None None]"

subsection \<open>The addresses through a teardown\<close>

text \<open>
  An address the interface owned in the state \<open>s\<close>, behind the handle \<open>h\<close>, is
  invalidated in the state \<open>s'\<close>: the address table has no entry for it, its endpoint
  is expired, and a registered dispatcher heard \<^verbatim>\<open>OnAutoGenAddressInvalidated\<close> for it,
  should its endpoint be one that SLAAC configured.
\<close>

definition addressInvalidated :: "env \<Rightarrow> ndpState \<Rightarrow> ndpState \<Rightarrow> nat \<Rightarrow> bool" where
  "addressInvalidated e s s' h =
     (map_of (addressTable s') (Address (addrWithPrefix (endpoints s h))) = None
      \<and> Kind (endpoints s' h) = PermanentExpired
      \<and> (NDPDisp e \<noteq> None \<and> ConfigType (endpoints s h) \<noteq> AddressConfigStatic \<longrightarrow>
           OnAutoGenAddressInvalidated (nicID e) (addrWithPrefix (endpoints s h))
             \<in> set (events s')))"

text \<open>
  What removing addresses does to the rest of the state: every endpoint keeps its
  address and the way it was configured, an expired endpoint stays expired, the
  dispatcher calls made stay, and an entry of the address table is as it was or is
  gone, its address invalidated.
\<close>

definition removals :: "env \<Rightarrow> ndpState \<Rightarrow> ndpState \<Rightarrow> bool" where
  "removals e s s' =
     ((\<forall>h. addrWithPrefix (endpoints s' h) = addrWithPrefix (endpoints s h)
           \<and> ConfigType (endpoints s' h) = ConfigType (endpoints s h)
           \<and> (Kind (endpoints s h) = PermanentExpired
                \<longrightarrow> Kind (endpoints s' h) = PermanentExpired))
      \<and> set (events s) \<subseteq> set (events s')
      \<and> (\<forall>a. map_of (addressTable s') a = map_of (addressTable s) a
             \<or> (map_of (addressTable s') a = None
                \<and> (\<forall>h. map_of (addressTable s) a = Some h \<longrightarrow> addressInvalidated e s s' h))))"


section \<open>Theorems\<close>

subsection \<open>validate\<close>

text \<open>
  C3. The claim reads: validate replaces an out-of-range field by that field's default, so
  a \<^verbatim>\<open>MaxTempAddrValidLifetime\<close> below two hours becomes seven days and an out-of-range
  \<^verbatim>\<open>MaxTempAddrPreferredLifetime\<close> becomes one day. The code stores the minimum, not
  the default: one hour of valid lifetime becomes two hours, and a preferred lifetime of
  zero becomes one hour, ten minutes and five seconds.
\<close>

theorem validate_temp_lifetimes_get_minimum:
  "MaxTempAddrValidLifetime
     (validate (DefaultNDPConfigurations\<lparr>MaxTempAddrValidLifetime := Hour\<rparr>)) = 2 * Hour
   \<and> 2 * Hour \<noteq> defaultMaxTempAddrValidLifetime
   \<and> MaxTempAddrPreferredLifetime
     (validate (DefaultNDPConfigurations\<lparr>MaxTempAddrPreferredLifetime := 0\<rparr>))
       = Hour + 10 * Minute + 5 * Second
   \<and> Hour + 10 * Minute + 5 * Second \<noteq> defaultMaxTempAddrPreferredLifetime"
  by (simp add: validate_def DefaultNDPConfigurations_def durations)

subsection \<open>The SLAAC and DAD functions leave the core of the state alone\<close>

lemma core_fields:
  "core s' = core s \<Longrightarrow>
     configs s' = configs s \<and> defaultRouters s' = defaultRouters s
     \<and> onLinkPrefixes s' = onLinkPrefixes s \<and> rtrSolicitJob s' = rtrSolicitJob s
     \<and> dhcpv6Configuration s' = dhcpv6Configuration s \<and> now s' = now s
     \<and> temporaryAddressDesyncFactor s' = temporaryAddressDesyncFactor s
     \<and> rsPackets s' = rsPackets s \<and> discoveredEvents s' = discoveredEvents s"
  by (simp add: core_def)

lemma core_upd [simp]:
  "core (s\<lparr>dad := d\<rparr>) = core s"
  "core (s\<lparr>slaacPrefixes := p\<rparr>) = core s"
  "core (s\<lparr>endpoints := eps\<rparr>) = core s"
  "core (s\<lparr>nextEndpoint := n\<rparr>) = core s"
  "core (s\<lparr>addressTable := a\<rparr>) = core s"
  "core (s\<lparr>temporaryIIDHistory := h\<rparr>) = core s"
  by (simp_all add: core_def rsPackets_def discoveredEvents_def)

lemma core_event [simp]:
  "\<not> isDiscovered ev \<Longrightarrow> core (s\<lparr>events := events s @ [ev]\<rparr>) = core s"
  by (simp add: core_def rsPackets_def discoveredEvents_def)

lemma core_notify [simp]:
  "\<not> isDiscovered (ev (nicID e)) \<Longrightarrow> core (notify e ev s) = core s"
  by (simp add: notify_def split: option.splits)

lemma core_SetKind [simp]: "core (SetKind h k s) = core s"
  by (simp add: SetKind_def)

lemma core_SetDeprecated [simp]: "core (SetDeprecated h d s) = core s"
  by (simp add: SetDeprecated_def)

lemma core_NS [simp]:
  "core (s\<lparr>packets := packets s @ [(NeighborSolicit a, r)]\<rparr>) = core s"
  by (simp add: core_def rsPackets_def discoveredEvents_def)

lemma startDAD_core:
  "startDuplicateAddressDetection e addr h s = Some (r, s') \<Longrightarrow> core s' = core s"
  by (auto simp: startDuplicateAddressDetection_def Let_def split: if_splits)

lemma stopDAD_core [simp]: "core (stopDuplicateAddressDetection e addr s) = core s"
  by (simp add: stopDuplicateAddressDetection_def split: option.splits)

lemma addPermanent_core:
  "addAndAcquirePermanentAddressLocked e addr ct d s = Some (r, s') \<Longrightarrow> core s' = core s"
  by (auto simp: addAndAcquirePermanentAddressLocked_def Let_def
      split: if_splits option.splits prod.splits dest!: startDAD_core)

lemma keepPrefix_core [simp]:
  "core (cleanupSLAACAddrResourcesAndNotify_keepPrefix e addr s) = core s"
  by (simp add: cleanupSLAACAddrResourcesAndNotify_keepPrefix_def Let_def split: option.splits)

lemma removePermanent_core:
  "removePermanentEndpointLocked e h s = (r, s') \<Longrightarrow> core s' = core s"
  by (auto simp: removePermanentEndpointLocked_def Let_def
      split: if_splits AddressConfigType.splits)

lemma addSLAAC_core:
  "addAndAcquireSLAACAddr e addr ct d s = Some (r, s') \<Longrightarrow> core s' = core s"
  by (auto simp: addAndAcquireSLAACAddr_def Let_def
      split: if_splits option.splits prod.splits sum.splits dest!: addPermanent_core)

lemma tempLoop_core:
  "generateTempSLAACAddr_loop n e a s = (r, s') \<Longrightarrow> core s' = core s"
  by (induction n arbitrary: s) (auto simp: Let_def split: if_splits)

lemma generateSLAACAddr_core:
  "generateSLAACAddr e prefix st s = Some (b, st', s') \<Longrightarrow> core s' = core s"
  by (auto simp: generateSLAACAddr_def Let_def
      split: if_splits option.splits prod.splits dest!: addSLAAC_core)

lemma generateTemp_core:
  "generateTempSLAACAddr e prefix st r s = Some (b, st', s') \<Longrightarrow> core s' = core s"
  unfolding generateTempSLAACAddr_def Let_def
  by (auto split: if_splits option.splits prod.splits dest!: addSLAAC_core tempLoop_core)


lemma regenerateTemp_core:
  "regenerateTempSLAACAddr e prefix r s = Some s' \<Longrightarrow> core s' = core s"
  by (auto simp: regenerateTempSLAACAddr_def split: option.splits dest!: generateTemp_core)

lemma deprecate_core:
  "deprecateSLAACAddress e h s = Some s' \<Longrightarrow> core s' = core s"
  by (auto simp: deprecateSLAACAddress_def split: option.splits if_splits)

lemma invalidateTemp_core:
  "invalidateTempSLAACAddr e m a st s = Some (m', s') \<Longrightarrow> core s' = core s"
  by (auto simp: invalidateTempSLAACAddr_def split: prod.splits option.splits
      dest!: removePermanent_core)

lemma invalidateTemps_core:
  "invalidateTempSLAACAddrs e ks m s = Some (m', s') \<Longrightarrow> core s' = core s"
proof (induction ks arbitrary: m s)
  case Nil
  then show ?case by simp
next
  case (Cons k ks)
  show ?case
  proof (cases "map_of m k")
    case None
    with Cons show ?thesis by simp
  next
    case (Some st)
    with Cons.prems obtain m1 s1 where
      a: "invalidateTempSLAACAddr e m k st s = Some (m1, s1)" and
      b: "invalidateTempSLAACAddrs e ks m1 s1 = Some (m', s')"
      by (auto split: option.splits)
    from Cons.IH [OF b] invalidateTemp_core [OF a] show ?thesis by simp
  qed
qed

lemma cleanupPrefix_core:
  "cleanupSLAACPrefixResources e prefix st s = Some s' \<Longrightarrow> core s' = core s"
  by (auto simp: cleanupSLAACPrefixResources_def split: option.splits dest!: invalidateTemps_core)

lemma invalidatePrefix_core:
  "invalidateSLAACPrefix e prefix st s = Some s' \<Longrightarrow> core s' = core s"
  by (auto simp: invalidateSLAACPrefix_def split: option.splits prod.splits
      dest!: cleanupPrefix_core removePermanent_core)

lemma cleanupSLAACAddr_core:
  "cleanupSLAACAddrResourcesAndNotify e addr b s = Some s' \<Longrightarrow> core s' = core s"
  by (auto simp: cleanupSLAACAddrResourcesAndNotify_def Let_def split: option.splits if_splits
      dest!: cleanupPrefix_core)

lemma cleanupTempAddr_core:
  "cleanupTempSLAACAddrResourcesAndNotify e addr b s = Some s' \<Longrightarrow> core s' = core s"
  by (auto simp: cleanupTempSLAACAddrResourcesAndNotify_def Let_def split: option.splits if_splits)

lemma regenerateSLAACAddr_core:
  "regenerateSLAACAddr e prefix s = Some s' \<Longrightarrow> core s' = core s"
  by (auto simp: regenerateSLAACAddr_def split: option.splits prod.splits bool.splits
      dest!: generateSLAACAddr_core invalidatePrefix_core)

lemma refreshTempAddr_core:
  "refreshTempAddr e t a st (ps, s, r, b) = Some (ps', s', r', b') \<Longrightarrow> core s' = core s"
  unfolding refreshTempAddr_def Let_def
  by (auto split: if_splits option.splits prod.splits dest!: invalidateTemp_core deprecate_core)

lemma refreshTempAddrs_core:
  "refreshTempAddrs e t ks (ps, s, r, b) = Some (ps', s', r', b') \<Longrightarrow> core s' = core s"
proof (induction ks arbitrary: ps s r b)
  case Nil
  then show ?case by simp
next
  case (Cons k ks)
  show ?case
  proof (cases "map_of (tempAddrs ps) k")
    case None
    with Cons show ?thesis by simp
  next
    case (Some st)
    with Cons.prems obtain ps1 s1 r1 b1 where
      a: "refreshTempAddr e t k st (ps, s, r, b) = Some (ps1, s1, r1, b1)" and
      b: "refreshTempAddrs e t ks (ps1, s1, r1, b1) = Some (ps', s', r', b')"
      by (auto split: option.splits)
    from Cons.IH [OF b] refreshTempAddr_core [OF a] show ?thesis by simp
  qed
qed

lemma refresh_core:
  "refreshSLAACPrefixLifetimes e prefix ps pl vl s = Some (ps', s') \<Longrightarrow> core s' = core s"
  unfolding refreshSLAACPrefixLifetimes_def Let_def
  by (auto split: if_splits option.splits prod.splits
      dest!: deprecate_core refreshTempAddrs_core generateTemp_core)

lemma doSLAAC_core:
  "doSLAAC e prefix pl vl s = Some s' \<Longrightarrow> core s' = core s"
  unfolding doSLAAC_def Let_def
  by (auto split: if_splits option.splits prod.splits bool.splits
      dest!: generateSLAACAddr_core generateTemp_core)

lemma handleAutonomous_core:
  "handleAutonomousPrefixInformation e pi s = Some s' \<Longrightarrow> core s' = core s"
  unfolding handleAutonomousPrefixInformation_def Let_def
  by (auto split: if_splits option.splits prod.splits dest!: refresh_core doSLAAC_core)

lemma dadJob_core:
  "dadJob e addr txerr s = Some s' \<Longrightarrow> core s' = core s"
  unfolding dadJob_def Let_def sendDADPacket_def
  by (auto split: if_splits option.splits prod.splits dest!: regenerateTemp_core)

lemma slaacDeprecationJob_core:
  "slaacDeprecationJob e prefix s = Some s' \<Longrightarrow> core s' = core s"
  by (auto simp: slaacDeprecationJob_def split: option.splits dest!: deprecate_core)

lemma slaacInvalidationJob_core:
  "slaacInvalidationJob e prefix s = Some s' \<Longrightarrow> core s' = core s"
  by (auto simp: slaacInvalidationJob_def split: option.splits dest!: invalidatePrefix_core)

lemma tempDeprecationJob_core:
  "tempDeprecationJob e prefix a s = Some s' \<Longrightarrow> core s' = core s"
  by (auto simp: tempDeprecationJob_def split: option.splits dest!: deprecate_core)

lemma tempInvalidationJob_core:
  "tempInvalidationJob e prefix a s = Some s' \<Longrightarrow> core s' = core s"
  by (auto simp: tempInvalidationJob_def split: option.splits dest!: invalidateTemp_core)

lemma tempRegenJob_core:
  "tempRegenJob e prefix a s = Some s' \<Longrightarrow> core s' = core s"
  by (auto simp: tempRegenJob_def split: option.splits if_splits dest!: generateTemp_core)

lemma fireTempJob_core:
  assumes "\<And>s0 s1. body s0 = Some s1 \<Longrightarrow> core s1 = core s0"
      and "fireTempJob job clear body prefix a s = Some s'"
  shows "core s' = core s"
  using assms(2) unfolding fireTempJob_def
  by (auto split: option.splits if_splits dest!: assms(1))

subsection \<open>Duplicate Address Detection\<close>

text \<open>
  C5. With \<^verbatim>\<open>DupAddrDetectTransmits = 0\<close>, \<^verbatim>\<open>startDuplicateAddressDetection\<close> on a
  tentative unicast address for which no DAD runs returns \<^verbatim>\<open>nil\<close>; the state after the
  call is the state before it with the address's kind set to \<open>Permanent\<close> and one call
  \<^verbatim>\<open>OnDuplicateAddressDetectionStatus(nic, addr, true, nil)\<close> added for the registered
  dispatcher, and nothing else: no DAD entry, no job.
\<close>

theorem startDAD_without_transmits_resolves_at_once:
  assumes "IsV6UnicastAddress e addr"
      and "GetKind s h = PermanentTentative"
      and "map_of (dad s) addr = None"
      and "DupAddrDetectTransmits (configs s) = 0"
  shows "startDuplicateAddressDetection e addr h s =
           Some (None,
             s\<lparr>endpoints := (endpoints s)(h := (endpoints s h)\<lparr>Kind := Permanent\<rparr>),
               events := events s @
                 (case NDPDisp e of
                    None \<Rightarrow> []
                  | Some ndpDisp \<Rightarrow> [OnDuplicateAddressDetectionStatus (nicID e) addr True None])\<rparr>)"
  using assms
  by (simp add: startDuplicateAddressDetection_def notify_def SetKind_def split: option.splits)

theorem startDAD_without_transmits_witness:
  "IsV6UnicastAddress exampleEnv exampleAddr
   \<and> GetKind (exampleState\<lparr>configs := DefaultNDPConfigurations\<lparr>DupAddrDetectTransmits := 0\<rparr>\<rparr>) 0
       = PermanentTentative
   \<and> startDuplicateAddressDetection exampleEnv exampleAddr 0
       (exampleState\<lparr>configs := DefaultNDPConfigurations\<lparr>DupAddrDetectTransmits := 0\<rparr>\<rparr>) =
     Some (None,
       exampleState\<lparr>configs := DefaultNDPConfigurations\<lparr>DupAddrDetectTransmits := 0\<rparr>,
         endpoints := (endpoints exampleState)(0 := (endpoints exampleState 0)\<lparr>Kind := Permanent\<rparr>),
         events := [OnDuplicateAddressDetectionStatus 1 exampleAddr True None]\<rparr>)"
proof -
  let ?s = "exampleState\<lparr>configs := DefaultNDPConfigurations\<lparr>DupAddrDetectTransmits := 0\<rparr>\<rparr>"
  have a: "IsV6UnicastAddress exampleEnv exampleAddr"
    by (simp add: exampleEnv_def exampleAddr_def IPv6Any_def)
  have b: "GetKind ?s 0 = PermanentTentative"
    by (simp add: GetKind_def exampleState_def)
  have c: "map_of (dad ?s) exampleAddr = None"
    by (simp add: exampleState_def)
  have d: "DupAddrDetectTransmits (configs ?s) = 0"
    by simp
  from startDAD_without_transmits_resolves_at_once [OF a b c d] a b
  show ?thesis by (simp add: exampleEnv_def exampleState_def)
qed

text \<open>
  C6. For an address that is not a unicast IPv6 address,
  \<^verbatim>\<open>startDuplicateAddressDetection\<close> returns \<^verbatim>\<open>ErrAddressFamilyNotSupported\<close> and the
  state is the state before the call.
\<close>

theorem startDAD_rejects_non_unicast:
  "\<not> IsV6UnicastAddress e addr \<Longrightarrow>
     startDuplicateAddressDetection e addr addressEndpoint s =
       Some (Some ErrAddressFamilyNotSupported, s)"
  by (simp add: startDuplicateAddressDetection_def)

theorem startDAD_rejects_non_unicast_witness:
  "\<not> IsV6UnicastAddress exampleEnv exampleMulticastAddr
   \<and> startDuplicateAddressDetection exampleEnv exampleMulticastAddr 0 exampleState =
       Some (Some ErrAddressFamilyNotSupported, exampleState)"
proof -
  have a: "\<not> IsV6UnicastAddress exampleEnv exampleMulticastAddr"
    by (simp add: exampleEnv_def exampleMulticastAddr_def)
  from startDAD_rejects_non_unicast [OF a] a show ?thesis by simp
qed

text \<open>
  C9. \<^verbatim>\<open>stopDuplicateAddressDetection\<close> for an address with a DAD entry removes the
  entry and adds one call \<^verbatim>\<open>OnDuplicateAddressDetectionStatus(nic, addr, false, nil)\<close>
  for the registered dispatcher, and changes nothing else; the entry's job is cancelled:
  the runtime no longer runs the DAD job of the address. Without an entry the state is
  unchanged.
\<close>

theorem stopDAD_removes_entry_and_notifies:
  "(map_of (dad s) addr = None \<longrightarrow> stopDuplicateAddressDetection e addr s = s)
   \<and> (map_of (dad s) addr \<noteq> None \<longrightarrow>
        stopDuplicateAddressDetection e addr s =
          s\<lparr>dad := AList.delete addr (dad s),
            events := events s @
              (case NDPDisp e of
                 None \<Rightarrow> []
               | Some ndpDisp \<Rightarrow> [OnDuplicateAddressDetectionStatus (nicID e) addr False None])\<rparr>)
   \<and> map_of (dad (stopDuplicateAddressDetection e addr s)) addr = None
   \<and> step e (FireDAD addr txerr) (stopDuplicateAddressDetection e addr s) =
        Some (stopDuplicateAddressDetection e addr s)"
proof -
  have a: "map_of (dad (stopDuplicateAddressDetection e addr s)) addr = None"
    by (simp add: stopDuplicateAddressDetection_def notify_def delete_conv' split: option.splits)
  have b: "step e (FireDAD addr txerr) (stopDuplicateAddressDetection e addr s) =
             Some (stopDuplicateAddressDetection e addr s)"
    by (simp add: step_def a)
  have c: "map_of (dad s) addr = None \<longrightarrow> stopDuplicateAddressDetection e addr s = s"
    by (simp add: stopDuplicateAddressDetection_def)
  have d: "map_of (dad s) addr \<noteq> None \<longrightarrow>
        stopDuplicateAddressDetection e addr s =
          s\<lparr>dad := AList.delete addr (dad s),
            events := events s @
              (case NDPDisp e of
                 None \<Rightarrow> []
               | Some ndpDisp \<Rightarrow> [OnDuplicateAddressDetectionStatus (nicID e) addr False None])\<rparr>"
    by (auto simp: stopDuplicateAddressDetection_def notify_def split: option.splits)
  from a b c d show ?thesis by blast
qed

theorem stopDAD_witness:
  "stopDuplicateAddressDetection exampleEnv exampleMulticastAddr exampleState = exampleState
   \<and> stopDuplicateAddressDetection exampleEnv exampleAddr
       (exampleState\<lparr>dad := [(exampleAddr,
          \<lparr>dad_job = Some 0, dad_remaining = 1, dad_addressEndpoint = 0\<rparr>)]\<rparr>) =
     exampleState\<lparr>events := [OnDuplicateAddressDetectionStatus 1 exampleAddr False None]\<rparr>"
proof -
  let ?s = "exampleState\<lparr>dad := [(exampleAddr,
          \<lparr>dad_job = Some 0, dad_remaining = 1, dad_addressEndpoint = 0\<rparr>)]\<rparr>"
  have a: "map_of (dad exampleState) exampleMulticastAddr = None"
    by (simp add: exampleState_def)
  have b: "map_of (dad ?s) exampleAddr \<noteq> None"
    by simp
  from stopDAD_removes_entry_and_notifies [of exampleState exampleMulticastAddr exampleEnv None] a
  have c: "stopDuplicateAddressDetection exampleEnv exampleMulticastAddr exampleState = exampleState"
    by blast
  from stopDAD_removes_entry_and_notifies [of ?s exampleAddr exampleEnv None] b
  have "stopDuplicateAddressDetection exampleEnv exampleAddr ?s =
          ?s\<lparr>dad := AList.delete exampleAddr (dad ?s),
            events := events ?s @
              (case NDPDisp exampleEnv of
                 None \<Rightarrow> []
               | Some ndpDisp \<Rightarrow> [OnDuplicateAddressDetectionStatus (nicID exampleEnv) exampleAddr False None])\<rparr>"
    by blast
  then have d: "stopDuplicateAddressDetection exampleEnv exampleAddr ?s =
      exampleState\<lparr>events := [OnDuplicateAddressDetectionStatus 1 exampleAddr False None]\<rparr>"
    by (simp add: exampleEnv_def exampleState_def)
  from c d show ?thesis by simp
qed

subsection \<open>Refreshing a SLAAC prefix\<close>

lemma generateTemp_validUntil:
  "generateTempSLAACAddr e prefix st r s = Some (b, st', s') \<Longrightarrow> validUntil st' = validUntil st"
  unfolding generateTempSLAACAddr_def Let_def
  by (auto split: if_splits option.splits prod.splits)

lemma refreshTempAddr_validUntil:
  "refreshTempAddr e t a st (ps, s, r, b) = Some (ps', s', r', b') \<Longrightarrow>
     validUntil ps' = validUntil ps"
  unfolding refreshTempAddr_def Let_def
  by (auto split: if_splits option.splits prod.splits)

lemma refreshTempAddrs_validUntil:
  "refreshTempAddrs e t ks (ps, s, r, b) = Some (ps', s', r', b') \<Longrightarrow>
     validUntil ps' = validUntil ps"
proof (induction ks arbitrary: ps s r b)
  case Nil
  then show ?case by simp
next
  case (Cons k ks)
  show ?case
  proof (cases "map_of (tempAddrs ps) k")
    case None
    with Cons show ?thesis by simp
  next
    case (Some st)
    with Cons.prems obtain ps1 s1 r1 b1 where
      a: "refreshTempAddr e t k st (ps, s, r, b) = Some (ps1, s1, r1, b1)" and
      b: "refreshTempAddrs e t ks (ps1, s1, r1, b1) = Some (ps', s', r', b')"
      by (auto split: option.splits)
    from Cons.IH [OF b] refreshTempAddr_validUntil [OF a] show ?thesis by simp
  qed
qed

lemma refresh_validUntil:
  assumes "refreshSLAACPrefixLifetimes e prefix ps pl vl s = Some (ps', s')"
  shows "validUntil ps' =
           validUntil (refreshValidLifetime (now s) vl (refreshPreferredLifetime (now s) pl ps))"
proof -
  from assms obtain h s1 where
    h: "stableAddr_addressEndpoint ps = Some h" and
    s1: "(if pl = 0 then deprecateSLAACAddress e (Some h) s
          else Some (SetDeprecated h False s)) = Some s1"
    unfolding refreshSLAACPrefixLifetimes_def by (auto split: option.splits)
  from s1 have "core s1 = core s"
    by (auto split: if_splits dest: deprecate_core)
  then have t: "now s1 = now s"
    by (simp add: core_def)
  let ?ps = "refreshValidLifetime (now s) vl (refreshPreferredLifetime (now s) pl ps)"
  show ?thesis
  proof (cases "GetKind s1 h \<noteq> Permanent")
    case True
    with assms h s1 t show ?thesis
      unfolding refreshSLAACPrefixLifetimes_def by (simp add: Let_def)
  next
    case False
    with assms h s1 t obtain ps1 s2 r b where
      loop: "refreshTempAddrs e (now s) (map fst (tempAddrs ?ps)) (?ps, s1, [], True)
               = Some (ps1, s2, r, b)"
      unfolding refreshSLAACPrefixLifetimes_def
      by (auto simp: Let_def split: option.splits)
    from refreshTempAddrs_validUntil [OF loop] have v1: "validUntil ps1 = validUntil ?ps" .
    from assms h s1 t False loop have rest:
      "(if r \<noteq> [] \<or> b then
          (let state = map_of (tempAddrs ps1) r in
           case generateTempSLAACAddr e prefix ps1 True s2 of
             None \<Rightarrow> None
           | Some (generated, prefixState2, s3) \<Rightarrow>
               (case state of
                  Some st \<Rightarrow>
                    if generated then
                      Some (prefixState2\<lparr>tempAddrs :=
                              AList.update r (st\<lparr>regenerated := True\<rparr>)
                                (tempAddrs prefixState2)\<rparr>, s3)
                    else Some (prefixState2, s3)
                | None \<Rightarrow> Some (prefixState2, s3)))
        else Some (ps1, s2)) = Some (ps', s')"
      unfolding refreshSLAACPrefixLifetimes_def by (simp add: Let_def)
    have "validUntil ps' = validUntil ps1"
      using rest
      by (auto simp: Let_def split: option.splits if_splits dest!: generateTemp_validUntil)
    with v1 show ?thesis by simp
  qed
qed

lemma refreshValidLifetime_one_hour:
  "validUntil ps = Add t (3 * Hour) \<Longrightarrow>
     validUntil (refreshValidLifetime t Hour (refreshPreferredLifetime t pl ps)) = Add t (2 * Hour)"
  by (simp add: refreshValidLifetime_def refreshPreferredLifetime_def Sub_def Add_def durations)

lemma refreshValidLifetime_three_hours:
  "validUntil (refreshValidLifetime t (3 * Hour) (refreshPreferredLifetime t pl ps))
     = Add t (3 * Hour)"
  by (simp add: refreshValidLifetime_def refreshPreferredLifetime_def Sub_def Add_def durations)

lemma generateTempSLAACAddr_loop_unroll:
  "0 < n \<Longrightarrow>
     generateTempSLAACAddr_loop n e stableAddr s =
       (let r = GenerateTempIPv6SLAACAddr e (temporaryIIDHistory s) stableAddr;
            s1 = s\<lparr>temporaryIIDHistory := fst r\<rparr>
        in if \<not> hasPermanentAddressRLocked s1 (Address (snd r)) then (Some (snd r), s1)
           else generateTempSLAACAddr_loop (n - 1) e stableAddr s1)"
  by (cases n) (simp_all add: Let_def)

lemmas refresh_defs =
  handleAutonomousPrefixInformation_def refreshSLAACPrefixLifetimes_def
  refreshValidLifetime_def refreshPreferredLifetime_def generateTempSLAACAddr_def
  addAndAcquireSLAACAddr_def addAndAcquirePermanentAddressLocked_def
  startDuplicateAddressDetection_def hasPermanentAddressRLocked_def
  deprecateSLAACAddress_def notify_def SetKind_def GetKind_def SetDeprecated_def
  Schedule_def Cancel_def Add_def Sub_def remainingValidLifetime_def

lemmas example_defs =
  exampleEnv_def exampleState_def exampleSLAACState_def examplePI_def examplePrefix_def
  exampleAddr_def exampleDispatcher_def DefaultNDPConfigurations_def
  IPv6LinkLocalPrefix_Subnet_def IPv6Any_def maxSLAACAddrLocalRegenAttempts_def
  defaultDupAddrDetectTransmits_def defaultAutoGenTempGlobalAddresses_def

lemma example_refresh_returns:
  "vl = Hour \<or> vl = 3 * Hour \<Longrightarrow>
     \<exists>s'. handleAutonomousPrefixInformation exampleEnv (examplePI (30 * Minute) vl)
            exampleSLAACState = Some s'"
  by (auto simp: refresh_defs example_defs durations Let_def generateTempSLAACAddr_loop_unroll)

text \<open>
  C1, as stated, fails: the prefix \<open>2001:db8::/64\<close> is valid for three more hours, and a
  Prefix Information option with a valid lifetime of one hour leaves it valid for two
  hours, not three.
\<close>

theorem refresh_one_hour_counterexample:
  "remainingValidLifetime examplePrefix exampleSLAACState = Some (3 * Hour)
   \<and> Option.bind
        (handleAutonomousPrefixInformation exampleEnv (examplePI (30 * Minute) Hour)
           exampleSLAACState)
        (remainingValidLifetime examplePrefix) = Some (2 * Hour)
   \<and> 2 * Hour \<noteq> 3 * Hour"
  by (simp add: refresh_defs example_defs durations Let_def generateTempSLAACAddr_loop_unroll)

text \<open>
  C1, as amended. A SLAAC prefix is valid for three more hours. A Prefix Information
  option for it with a valid lifetime of one hour, once
  \<^verbatim>\<open>handleAutonomousPrefixInformation\<close> has returned, leaves it valid for two hours
  (\<^verbatim>\<open>MinPrefixInformationValidLifetimeForUpdate\<close>); one with a valid lifetime of three
  hours leaves it valid for three hours.
\<close>

theorem refresh_one_hour_resets_to_two_hours:
  assumes "remainingValidLifetime (pi_Subnet pi) s = Some (3 * Hour)"
      and "PreferredLifetime pi \<le> ValidLifetime pi"
      and "handleAutonomousPrefixInformation e pi s = Some s'"
  shows "(ValidLifetime pi = Hour \<longrightarrow>
            remainingValidLifetime (pi_Subnet pi) s' = Some (2 * Hour))
         \<and> (ValidLifetime pi = 3 * Hour \<longrightarrow>
            remainingValidLifetime (pi_Subnet pi) s' = Some (3 * Hour))"
proof -
  from assms(1) obtain state where
    st: "map_of (slaacPrefixes s) (pi_Subnet pi) = Some state" and
    rl: "Sub (validUntil state) (now s) = 3 * Hour"
    by (auto simp: remainingValidLifetime_def split: option.splits)
  from rl have vu: "validUntil state = Add (now s) (3 * Hour)"
    by (simp add: Sub_def Add_def durations max_def min_def split: if_splits)
  from handleAutonomous_core [OF assms(3)] have t: "now s' = now s"
    by (simp add: core_def)
  from st assms(2,3) obtain state1 s1 where
    r: "refreshSLAACPrefixLifetimes e (pi_Subnet pi) state (PreferredLifetime pi)
          (ValidLifetime pi) s = Some (state1, s1)" and
    s': "s' = s1\<lparr>slaacPrefixes := AList.update (pi_Subnet pi) state1 (slaacPrefixes s1)\<rparr>"
    unfolding handleAutonomousPrefixInformation_def
    by (auto simp: Let_def split: option.splits)
  from s' have m: "map_of (slaacPrefixes s') (pi_Subnet pi) = Some state1"
    by (simp add: update_conv')
  note v = refresh_validUntil [OF r]
  have one: "ValidLifetime pi = Hour \<longrightarrow> validUntil state1 = Add (now s) (2 * Hour)"
    using v refreshValidLifetime_one_hour [OF vu] by simp
  have three: "ValidLifetime pi = 3 * Hour \<longrightarrow> validUntil state1 = Add (now s) (3 * Hour)"
    using v refreshValidLifetime_three_hours by simp
  have two_h: "Sub (Add (now s) (2 * Hour)) (now s) = 2 * Hour"
    by (simp add: Sub_def Add_def durations)
  have three_h: "Sub (Add (now s) (3 * Hour)) (now s) = 3 * Hour"
    by (simp add: Sub_def Add_def durations)
  from one three show ?thesis
    by (simp add: remainingValidLifetime_def m t two_h three_h)
qed

theorem refresh_one_hour_witness:
  "remainingValidLifetime examplePrefix exampleSLAACState = Some (3 * Hour)
   \<and> (\<exists>s'. handleAutonomousPrefixInformation exampleEnv (examplePI (30 * Minute) Hour)
              exampleSLAACState = Some s'
            \<and> remainingValidLifetime examplePrefix s' = Some (2 * Hour))
   \<and> (\<exists>s'. handleAutonomousPrefixInformation exampleEnv (examplePI (30 * Minute) (3 * Hour))
              exampleSLAACState = Some s'
            \<and> remainingValidLifetime examplePrefix s' = Some (3 * Hour))"
proof -
  have pre: "remainingValidLifetime (pi_Subnet (examplePI (30 * Minute) vl)) exampleSLAACState
               = Some (3 * Hour)" for vl
    by (simp add: remainingValidLifetime_def example_defs Sub_def durations)
  have le1: "PreferredLifetime (examplePI (30 * Minute) Hour)
               \<le> ValidLifetime (examplePI (30 * Minute) Hour)"
    by (simp add: examplePI_def durations)
  have le3: "PreferredLifetime (examplePI (30 * Minute) (3 * Hour))
               \<le> ValidLifetime (examplePI (30 * Minute) (3 * Hour))"
    by (simp add: examplePI_def durations)
  from example_refresh_returns [of Hour] obtain s1 where
    r1: "handleAutonomousPrefixInformation exampleEnv (examplePI (30 * Minute) Hour)
           exampleSLAACState = Some s1"
    by auto
  from example_refresh_returns [of "3 * Hour"] obtain s3 where
    r3: "handleAutonomousPrefixInformation exampleEnv (examplePI (30 * Minute) (3 * Hour))
           exampleSLAACState = Some s3"
    by auto
  from refresh_one_hour_resets_to_two_hours [OF pre le1 r1]
  have c1: "remainingValidLifetime examplePrefix s1 = Some (2 * Hour)"
    by (simp add: examplePI_def)
  from refresh_one_hour_resets_to_two_hours [OF pre le3 r3]
  have c3: "remainingValidLifetime examplePrefix s3 = Some (3 * Hour)"
    by (simp add: examplePI_def)
  from pre [of Hour] r1 c1 r3 c3 show ?thesis
    by (simp add: examplePI_def)
qed

text \<open>
  C7. A Prefix Information option whose preferred lifetime is greater than its valid
  lifetime is dropped: \<^verbatim>\<open>handleAutonomousPrefixInformation\<close> returns with the state it
  was given, so no SLAAC prefix is created, refreshed or removed and no dispatcher
  method is called.
\<close>

theorem autonomous_prefix_with_preferred_above_valid_is_dropped:
  "PreferredLifetime pi > ValidLifetime pi \<Longrightarrow>
     handleAutonomousPrefixInformation e pi s = Some s"
  by (simp add: handleAutonomousPrefixInformation_def)

theorem autonomous_prefix_dropped_witness:
  "PreferredLifetime (examplePI (2 * Hour) Hour) > ValidLifetime (examplePI (2 * Hour) Hour)
   \<and> handleAutonomousPrefixInformation exampleEnv (examplePI (2 * Hour) Hour) exampleSLAACState
       = Some exampleSLAACState"
proof -
  have a: "PreferredLifetime (examplePI (2 * Hour) Hour) > ValidLifetime (examplePI (2 * Hour) Hour)"
    by (simp add: examplePI_def durations)
  from autonomous_prefix_with_preferred_above_valid_is_dropped [OF a] a show ?thesis by simp
qed

text \<open>
  C10. \<^verbatim>\<open>deprecateSLAACAddress\<close> on an address endpoint returns with the endpoint
  deprecated; it adds the call \<^verbatim>\<open>OnAutoGenAddressDeprecated\<close> for the registered
  dispatcher only when the endpoint was not deprecated before, and a call on a
  deprecated endpoint, so also a second call, changes nothing.
\<close>

theorem deprecateSLAACAddress_is_idempotent:
  "\<exists>s'. deprecateSLAACAddress e (Some h) s = Some s'
      \<and> Deprecated (endpoints s' h)
      \<and> deprecateSLAACAddress e (Some h) s' = Some s'
      \<and> (Deprecated (endpoints s h) \<longrightarrow> s' = s)
      \<and> events s' = events s @
           (if Deprecated (endpoints s h) \<or> NDPDisp e = None then []
            else [OnAutoGenAddressDeprecated (nicID e) (addrWithPrefix (endpoints s h))])"
  by (auto simp: deprecateSLAACAddress_def notify_def SetDeprecated_def split: option.splits)

theorem deprecateSLAACAddress_witness:
  "\<exists>s'. deprecateSLAACAddress exampleEnv (Some 0) exampleSLAACState = Some s'
      \<and> events s' = [OnAutoGenAddressDeprecated 1 (AddressWithPrefix exampleAddr 64)]
      \<and> deprecateSLAACAddress exampleEnv (Some 0) s' = Some s'"
proof -
  from deprecateSLAACAddress_is_idempotent [of exampleEnv 0 exampleSLAACState]
  obtain s' where
    a: "deprecateSLAACAddress exampleEnv (Some 0) exampleSLAACState = Some s'" and
    b: "deprecateSLAACAddress exampleEnv (Some 0) s' = Some s'" and
    c: "events s' = events exampleSLAACState @
           (if Deprecated (endpoints exampleSLAACState 0) \<or> NDPDisp exampleEnv = None then []
            else [OnAutoGenAddressDeprecated (nicID exampleEnv)
                    (addrWithPrefix (endpoints exampleSLAACState 0))])"
    by blast
  from c have "events s' = [OnAutoGenAddressDeprecated 1 (AddressWithPrefix exampleAddr 64)]"
    by (simp add: exampleSLAACState_def exampleState_def exampleEnv_def)
  with a b show ?thesis by blast
qed

subsection \<open>The router and on-link prefix tables\<close>

lemma isRouterDiscovered_isDiscovered: "isRouterDiscovered ev \<Longrightarrow> isDiscovered ev"
  by (cases ev) simp_all

lemma filter_routerDiscovered:
  "filter isRouterDiscovered (filter isDiscovered evs) = filter isRouterDiscovered evs"
  by (induction evs) (auto dest: isRouterDiscovered_isDiscovered)

lemma core_rtrView: "core s' = core s \<Longrightarrow> rtrView s' = rtrView s"
proof -
  assume a: "core s' = core s"
  then have "discoveredEvents s' = discoveredEvents s"
    by (simp add: core_def)
  then have "filter isRouterDiscovered (filter isDiscovered (events s'))
               = filter isRouterDiscovered (filter isDiscovered (events s))"
    by (simp add: discoveredEvents_def)
  then have "filter isRouterDiscovered (events s') = filter isRouterDiscovered (events s)"
    by (simp only: filter_routerDiscovered)
  then have "routerDiscoveredEvents s' = routerDiscoveredEvents s"
    by (simp only: routerDiscoveredEvents_def)
  with a show ?thesis
    by (simp add: core_def rtrView_def)
qed

lemma rtrView_rsView: "rtrView s' = rtrView s \<Longrightarrow> rsView s' = rsView s"
  by (simp add: rtrView_def rsView_def)

lemma core_rsView: "core s' = core s \<Longrightarrow> rsView s' = rsView s"
  by (simp add: core_def rsView_def)

lemma length_update:
  "length (AList.update k v al) = (if map_of al k = None then Suc (length al) else length al)"
  by (induction al) auto

lemma rtrView_upd [simp]:
  "rtrView (s\<lparr>onLinkPrefixes := p\<rparr>) = rtrView s"
  "rtrView (s\<lparr>dhcpv6Configuration := c\<rparr>) = rtrView s"
  by (simp_all add: rtrView_def rsPackets_def routerDiscoveredEvents_def)

lemma rtrView_event [simp]:
  "\<not> isRouterDiscovered ev \<Longrightarrow> rtrView (s\<lparr>events := events s @ [ev]\<rparr>) = rtrView s"
  by (simp add: rtrView_def rsPackets_def routerDiscoveredEvents_def)

lemma rtrView_notify [simp]:
  "\<not> isRouterDiscovered (ev (nicID e)) \<Longrightarrow> rtrView (notify e ev s) = rtrView s"
  by (simp add: notify_def split: option.splits)

lemma rsView_upd [simp]:
  "rsView (s\<lparr>onLinkPrefixes := p\<rparr>) = rsView s"
  "rsView (s\<lparr>defaultRouters := r\<rparr>) = rsView s"
  "rsView (s\<lparr>dhcpv6Configuration := c\<rparr>) = rsView s"
  "rsView (s\<lparr>events := evs\<rparr>) = rsView s"
  "rsView (s\<lparr>now := t\<rparr>) = rsView s"
  by (simp_all add: rsView_def rsPackets_def)

lemma rsView_notify [simp]: "rsView (notify e ev s) = rsView s"
  by (simp add: notify_def split: option.splits)

text \<open>The on-link prefix functions.\<close>

lemma invalidateOnLinkPrefix_rtrView [simp]:
  "rtrView (invalidateOnLinkPrefix e prefix s) = rtrView s"
  by (simp add: invalidateOnLinkPrefix_def split: option.splits)

lemma invalidateOnLinkPrefix_length:
  "length (onLinkPrefixes (invalidateOnLinkPrefix e prefix s)) \<le> length (onLinkPrefixes s)"
  by (simp add: invalidateOnLinkPrefix_def notify_def length_delete_le split: option.splits)

lemma handleOnLinkPrefixInformation_rtrView [simp]:
  "rtrView (handleOnLinkPrefixInformation e pi s) = rtrView s"
  by (simp add: handleOnLinkPrefixInformation_def rememberOnLinkPrefix_def Let_def
      split: option.splits)

lemma handleOnLinkPrefixInformation_length:
  "length (onLinkPrefixes s) \<le> MaxDiscoveredOnLinkPrefixes \<Longrightarrow>
     length (onLinkPrefixes (handleOnLinkPrefixInformation e pi s)) \<le> MaxDiscoveredOnLinkPrefixes"
  using invalidateOnLinkPrefix_length [of e "pi_Subnet pi" s]
  by (auto simp: handleOnLinkPrefixInformation_def rememberOnLinkPrefix_def Let_def length_update
      split: option.splits)

lemma handleOnLinkPrefixInformation_full:
  "MaxDiscoveredOnLinkPrefixes \<le> length (onLinkPrefixes s) \<Longrightarrow>
   map_of (onLinkPrefixes s) (pi_Subnet pi) = None \<Longrightarrow> ValidLifetime pi \<noteq> 0 \<Longrightarrow>
     handleOnLinkPrefixInformation e pi s = s"
  by (simp add: handleOnLinkPrefixInformation_def Let_def)

text \<open>The default router functions.\<close>

lemma invalidateDefaultRouter_onLinkPrefixes [simp]:
  "onLinkPrefixes (invalidateDefaultRouter e ip s) = onLinkPrefixes s"
  by (simp add: invalidateDefaultRouter_def notify_def split: option.splits)

lemma invalidateDefaultRouter_rsView [simp]:
  "rsView (invalidateDefaultRouter e ip s) = rsView s"
  by (simp add: invalidateDefaultRouter_def split: option.splits)

lemma invalidateDefaultRouter_length:
  "length (defaultRouters (invalidateDefaultRouter e ip s)) \<le> length (defaultRouters s)"
  by (simp add: invalidateDefaultRouter_def notify_def length_delete_le split: option.splits)

lemma invalidateOnLinkPrefix_defaultRouters [simp]:
  "defaultRouters (invalidateOnLinkPrefix e prefix s) = defaultRouters s"
  by (simp add: invalidateOnLinkPrefix_def notify_def split: option.splits)

lemma handleRA_defaultRouter_onLinkPrefixes [simp]:
  "onLinkPrefixes (handleRA_defaultRouter e ip rl s) = onLinkPrefixes s"
  by (simp add: handleRA_defaultRouter_def rememberDefaultRouter_def Let_def
      split: option.splits)

lemma handleRA_defaultRouter_rsView [simp]:
  "rsView (handleRA_defaultRouter e ip rl s) = rsView s"
  by (simp add: handleRA_defaultRouter_def rememberDefaultRouter_def Let_def
      split: option.splits)

lemma handleRA_defaultRouter_length:
  "length (defaultRouters s) \<le> MaxDiscoveredDefaultRouters \<Longrightarrow>
     length (defaultRouters (handleRA_defaultRouter e ip rl s)) \<le> MaxDiscoveredDefaultRouters"
  using invalidateDefaultRouter_length [of e ip s]
  by (auto simp: handleRA_defaultRouter_def rememberDefaultRouter_def Let_def length_update
      split: option.splits)

lemma handleRA_defaultRouter_full:
  "MaxDiscoveredDefaultRouters \<le> length (defaultRouters s) \<Longrightarrow>
   map_of (defaultRouters s) ip = None \<Longrightarrow> rl \<noteq> 0 \<Longrightarrow>
     handleRA_defaultRouter e ip rl s = s"
  by (simp add: handleRA_defaultRouter_def)

text \<open>The options of a Router Advertisement.\<close>

lemma handleRA_option_rtrView:
  "handleRA_option e opt s = Some s' \<Longrightarrow> rtrView s' = rtrView s"
  by (auto simp: handleRA_option_def Let_def split: NDPOption.splits if_splits
      dest!: handleAutonomous_core core_rtrView)

lemma handleRA_option_length:
  "handleRA_option e opt s = Some s' \<Longrightarrow>
   length (onLinkPrefixes s) \<le> MaxDiscoveredOnLinkPrefixes \<Longrightarrow>
     length (onLinkPrefixes s') \<le> MaxDiscoveredOnLinkPrefixes"
  using handleOnLinkPrefixInformation_length
  by (auto simp: handleRA_option_def Let_def notify_def core_def
      split: NDPOption.splits if_splits option.splits dest!: handleAutonomous_core)

lemma handleRA_options_rtrView:
  "handleRA_options e opts s = Some s' \<Longrightarrow> rtrView s' = rtrView s"
proof (induction opts arbitrary: s)
  case Nil
  then show ?case by simp
next
  case (Cons opt opts)
  from Cons.prems obtain s1 where
    a: "handleRA_option e opt s = Some s1" and b: "handleRA_options e opts s1 = Some s'"
    by (auto split: option.splits)
  from Cons.IH [OF b] handleRA_option_rtrView [OF a] show ?case by simp
qed

lemma handleRA_options_length:
  "handleRA_options e opts s = Some s' \<Longrightarrow>
   length (onLinkPrefixes s) \<le> MaxDiscoveredOnLinkPrefixes \<Longrightarrow>
     length (onLinkPrefixes s') \<le> MaxDiscoveredOnLinkPrefixes"
proof (induction opts arbitrary: s)
  case Nil
  then show ?case by simp
next
  case (Cons opt opts)
  from Cons.prems(1) obtain s1 where
    a: "handleRA_option e opt s = Some s1" and b: "handleRA_options e opts s1 = Some s'"
    by (auto split: option.splits)
  from Cons.IH [OF b handleRA_option_length [OF a Cons.prems(2)]] show ?case .
qed

text \<open>
  \<^verbatim>\<open>handleRA\<close> is the DHCPv6 part, then the default router part, then the options.
\<close>

lemma handleRA_parts:
  assumes "handleRA e ip ra s = Some s'"
  shows "s' = s \<or>
         (\<exists>s1. rsView s1 = rsView s \<and> defaultRouters s1 = defaultRouters s
                \<and> onLinkPrefixes s1 = onLinkPrefixes s
                \<and> routerDiscoveredEvents s1 = routerDiscoveredEvents s
                \<and> handleRA_options e (Options ra)
                     (handleRA_defaultRouter e ip (RouterLifetime ra) s1) = Some s')"
proof (cases "\<not> HandleRAs (configs s) \<or> Forwarding e")
  case True
  with assms show ?thesis by (simp add: handleRA_def)
next
  case False
  let ?s1 = "(case NDPDisp e of
                None \<Rightarrow> s
              | Some ndpDisp \<Rightarrow>
                  let configuration =
                        (if ManagedAddrConfFlag ra then DHCPv6ManagedAddress
                         else if OtherConfFlag ra then DHCPv6OtherConfigurations
                         else DHCPv6NoConfiguration)
                  in
                    if dhcpv6Configuration s \<noteq> configuration
                    then s\<lparr>dhcpv6Configuration := configuration,
                           events := events s @ [OnDHCPv6Configuration (nicID e) configuration]\<rparr>
                    else s)"
  have a: "rsView ?s1 = rsView s"
    by (simp add: Let_def rsView_def rsPackets_def split: option.splits)
  have b: "defaultRouters ?s1 = defaultRouters s" "onLinkPrefixes ?s1 = onLinkPrefixes s"
    by (simp_all add: Let_def split: option.splits)
  have c: "routerDiscoveredEvents ?s1 = routerDiscoveredEvents s"
    by (simp add: Let_def routerDiscoveredEvents_def split: option.splits)
  from assms False have
    "handleRA_options e (Options ra) (handleRA_defaultRouter e ip (RouterLifetime ra) ?s1) = Some s'"
    by (simp add: handleRA_def Let_def)
  with a b c show ?thesis by blast
qed

lemma handleRA_tablesBounded:
  assumes "handleRA e ip ra s = Some s'" and "tablesBounded s"
  shows "tablesBounded s'"
proof -
  from handleRA_parts [OF assms(1)] show ?thesis
  proof
    assume "s' = s"
    with assms(2) show ?thesis by simp
  next
    assume "\<exists>s1. rsView s1 = rsView s \<and> defaultRouters s1 = defaultRouters s
                \<and> onLinkPrefixes s1 = onLinkPrefixes s
                \<and> routerDiscoveredEvents s1 = routerDiscoveredEvents s
                \<and> handleRA_options e (Options ra)
                     (handleRA_defaultRouter e ip (RouterLifetime ra) s1) = Some s'"
    then obtain s1 where
      r: "defaultRouters s1 = defaultRouters s" and p: "onLinkPrefixes s1 = onLinkPrefixes s" and
      o: "handleRA_options e (Options ra)
            (handleRA_defaultRouter e ip (RouterLifetime ra) s1) = Some s'"
      by blast
    let ?s2 = "handleRA_defaultRouter e ip (RouterLifetime ra) s1"
    from assms(2) r have "length (defaultRouters ?s2) \<le> MaxDiscoveredDefaultRouters"
      by (simp add: tablesBounded_def handleRA_defaultRouter_length)
    moreover from handleRA_options_rtrView [OF o] have "defaultRouters s' = defaultRouters ?s2"
      by (simp add: rtrView_def)
    moreover from assms(2) p have "length (onLinkPrefixes ?s2) \<le> MaxDiscoveredOnLinkPrefixes"
      by (simp add: tablesBounded_def)
    then have "length (onLinkPrefixes s') \<le> MaxDiscoveredOnLinkPrefixes"
      by (rule handleRA_options_length [OF o])
    ultimately show ?thesis by (simp add: tablesBounded_def)
  qed
qed

lemma handleRA_full_router_table:
  assumes "handleRA e ip ra s = Some s'"
      and "MaxDiscoveredDefaultRouters \<le> length (defaultRouters s)"
      and "map_of (defaultRouters s) ip = None"
      and "RouterLifetime ra \<noteq> 0"
  shows "defaultRouters s' = defaultRouters s
         \<and> routerDiscoveredEvents s' = routerDiscoveredEvents s"
proof -
  from handleRA_parts [OF assms(1)] show ?thesis
  proof
    assume "s' = s"
    then show ?thesis by simp
  next
    assume "\<exists>s1. rsView s1 = rsView s \<and> defaultRouters s1 = defaultRouters s
                \<and> onLinkPrefixes s1 = onLinkPrefixes s
                \<and> routerDiscoveredEvents s1 = routerDiscoveredEvents s
                \<and> handleRA_options e (Options ra)
                     (handleRA_defaultRouter e ip (RouterLifetime ra) s1) = Some s'"
    then obtain s1 where
      r: "defaultRouters s1 = defaultRouters s" and
      d: "routerDiscoveredEvents s1 = routerDiscoveredEvents s" and
      o: "handleRA_options e (Options ra)
            (handleRA_defaultRouter e ip (RouterLifetime ra) s1) = Some s'"
      by blast
    from assms(2,3,4) r have "handleRA_defaultRouter e ip (RouterLifetime ra) s1 = s1"
      by (simp add: handleRA_defaultRouter_full)
    with o have "rtrView s' = rtrView s1"
      by (simp add: handleRA_options_rtrView)
    with r d show ?thesis by (simp add: rtrView_def)
  qed
qed

subsection \<open>Teardown\<close>



lemma invalidateOnLinkPrefix_table:
  "onLinkPrefixes (invalidateOnLinkPrefix e prefix s) = AList.delete prefix (onLinkPrefixes s)"
  by (auto simp: invalidateOnLinkPrefix_def notify_def map_of_eq_None_iff split: option.splits)

lemma invalidateDefaultRouter_table:
  "defaultRouters (invalidateDefaultRouter e ip s) = AList.delete ip (defaultRouters s)"
  by (auto simp: invalidateDefaultRouter_def notify_def map_of_eq_None_iff split: option.splits)

lemma filter_delete:
  "filter (\<lambda>p. fst p \<notin> set ks) (AList.delete k al) = filter (\<lambda>p. fst p \<notin> set (k # ks)) al"
  by (induction al) auto

lemma fold_invalidateOnLinkPrefix_table:
  "onLinkPrefixes (fold (invalidateOnLinkPrefix e) ks s) =
     filter (\<lambda>p. fst p \<notin> set ks) (onLinkPrefixes s)"
proof (induction ks arbitrary: s)
  case Nil
  then show ?case by simp
next
  case (Cons k ks)
  from Cons.IH [of "invalidateOnLinkPrefix e k s"] show ?case
    by (simp only: fold_simps invalidateOnLinkPrefix_table filter_delete)
qed

lemma fold_invalidateDefaultRouter_table:
  "defaultRouters (fold (invalidateDefaultRouter e) ks s) =
     filter (\<lambda>p. fst p \<notin> set ks) (defaultRouters s)"
proof (induction ks arbitrary: s)
  case Nil
  then show ?case by simp
next
  case (Cons k ks)
  from Cons.IH [of "invalidateDefaultRouter e k s"] show ?case
    by (simp only: fold_simps invalidateDefaultRouter_table filter_delete)
qed

lemma filter_own_keys: "filter (\<lambda>p. fst p \<notin> set (map fst al)) al = []"
  by (induction al) auto

lemma fold_invalidateOnLinkPrefix_all:
  "onLinkPrefixes (fold (invalidateOnLinkPrefix e) (map fst (onLinkPrefixes s)) s) = []"
  by (simp only: fold_invalidateOnLinkPrefix_table filter_own_keys)

lemma fold_invalidateDefaultRouter_all:
  "defaultRouters (fold (invalidateDefaultRouter e) (map fst (defaultRouters s)) s) = []"
  by (simp only: fold_invalidateDefaultRouter_table filter_own_keys)

lemma fold_invalidateOnLinkPrefix_rtrView [simp]:
  "rtrView (fold (invalidateOnLinkPrefix e) ks s) = rtrView s"
  by (induction ks arbitrary: s) simp_all

lemma fold_invalidateOnLinkPrefix_slaacPrefixes [simp]:
  "slaacPrefixes (fold (invalidateOnLinkPrefix e) ks s) = slaacPrefixes s"
  by (induction ks arbitrary: s)
     (simp_all add: invalidateOnLinkPrefix_def notify_def split: option.splits)

lemma fold_invalidateDefaultRouter_onLinkPrefixes [simp]:
  "onLinkPrefixes (fold (invalidateDefaultRouter e) ks s) = onLinkPrefixes s"
  by (induction ks arbitrary: s) simp_all

lemma fold_invalidateDefaultRouter_rsView [simp]:
  "rsView (fold (invalidateDefaultRouter e) ks s) = rsView s"
  by (induction ks arbitrary: s) simp_all

lemma fold_invalidateDefaultRouter_slaacPrefixes [simp]:
  "slaacPrefixes (fold (invalidateDefaultRouter e) ks s) = slaacPrefixes s"
  by (induction ks arbitrary: s)
     (simp_all add: invalidateDefaultRouter_def notify_def split: option.splits)







text \<open>The keys of the SLAAC prefix table through an invalidation.\<close>

lemma stopDAD_slaacPrefixes [simp]:
  "slaacPrefixes (stopDuplicateAddressDetection e addr s) = slaacPrefixes s"
  by (simp add: stopDuplicateAddressDetection_def notify_def split: option.splits)








lemma removeSLAACAddresses_loop_core:
  "removeSLAACAddresses_loop e keepLinkLocal ks n s = Some (n', s') \<Longrightarrow> core s' = core s"
proof (induction ks arbitrary: n s)
  case Nil
  then show ?case by simp
next
  case (Cons k ks)
  show ?case
  proof (cases "map_of (slaacPrefixes s) k")
    case None
    with Cons show ?thesis by simp
  next
    case (Some st)
    show ?thesis
    proof (cases "keepLinkLocal \<and> k = IPv6LinkLocalPrefix_Subnet")
      case True
      with Some Cons.prems have
        "removeSLAACAddresses_loop e keepLinkLocal ks (n + 1) s = Some (n', s')"
        by simp
      from Cons.IH [OF this] show ?thesis .
    next
      case False
      with Some Cons.prems obtain s1 where
        a: "invalidateSLAACPrefix e k st s = Some s1" and
        b: "removeSLAACAddresses_loop e keepLinkLocal ks n s1 = Some (n', s')"
        by (auto split: option.splits)
      from Cons.IH [OF b] invalidatePrefix_core [OF a] show ?thesis by simp
    qed
  qed
qed

lemma removeSLAACAddresses_core:
  "removeSLAACAddresses e keepLinkLocal s = Some s' \<Longrightarrow> core s' = core s"
  unfolding removeSLAACAddresses_def
  by (auto split: option.splits prod.splits if_splits dest!: removeSLAACAddresses_loop_core)

text \<open>
  \<^verbatim>\<open>cleanupState\<close> returns once \<^verbatim>\<open>removeSLAACAddresses\<close> has: its two loops empty their
  tables, so neither of its own panics is reached.
\<close>

lemma cleanupState_result:
  "cleanupState e hostOnly s =
     (case removeSLAACAddresses e hostOnly s of
        None \<Rightarrow> None
      | Some s1 \<Rightarrow>
          Some (fold (invalidateDefaultRouter e) (map fst (defaultRouters s1))
                  (fold (invalidateOnLinkPrefix e) (map fst (onLinkPrefixes s1)) s1)
                \<lparr>dhcpv6Configuration := 0\<rparr>))"
proof (cases "removeSLAACAddresses e hostOnly s")
  case None
  then show ?thesis by (simp add: cleanupState_def)
next
  case (Some s1)
  let ?s2 = "fold (invalidateOnLinkPrefix e) (map fst (onLinkPrefixes s1)) s1"
  have a: "onLinkPrefixes ?s2 = []"
    by (rule fold_invalidateOnLinkPrefix_all)
  have "rtrView ?s2 = rtrView s1"
    by simp
  then have b: "defaultRouters ?s2 = defaultRouters s1"
    by (simp add: rtrView_def)
  have c: "defaultRouters (fold (invalidateDefaultRouter e) (map fst (defaultRouters ?s2)) ?s2) = []"
    by (rule fold_invalidateDefaultRouter_all)
  from Some a b c show ?thesis
    by (simp add: cleanupState_def Let_def)
qed

lemma cleanupState_tables:
  assumes "cleanupState e hostOnly s = Some s'"
  shows "defaultRouters s' = [] \<and> onLinkPrefixes s' = []"
proof -
  from assms obtain s1 where
    s': "s' = fold (invalidateDefaultRouter e) (map fst (defaultRouters s1))
                (fold (invalidateOnLinkPrefix e) (map fst (onLinkPrefixes s1)) s1)
              \<lparr>dhcpv6Configuration := 0\<rparr>"
    by (auto simp: cleanupState_result split: option.splits)
  let ?s2 = "fold (invalidateOnLinkPrefix e) (map fst (onLinkPrefixes s1)) s1"
  let ?s3 = "fold (invalidateDefaultRouter e) (map fst (defaultRouters s1)) ?s2"
  have "rtrView ?s2 = rtrView s1"
    by simp
  then have r2: "defaultRouters ?s2 = defaultRouters s1"
    by (simp add: rtrView_def)
  have p2: "onLinkPrefixes ?s2 = []"
    by (rule fold_invalidateOnLinkPrefix_all)
  have "defaultRouters (fold (invalidateDefaultRouter e) (map fst (defaultRouters ?s2)) ?s2) = []"
    by (rule fold_invalidateDefaultRouter_all)
  with r2 have r3: "defaultRouters ?s3 = []"
    by simp
  have p3: "onLinkPrefixes ?s3 = []"
    using p2 by simp
  from r3 p3 s' show ?thesis by simp
qed











lemma notify_fields [simp]:
  "addressTable (notify e ev s) = addressTable s"
  "endpoints (notify e ev s) = endpoints s"
  "slaacPrefixes (notify e ev s) = slaacPrefixes s"
  by (simp_all add: notify_def split: option.splits)


lemma stopDAD_fields [simp]:
  "addressTable (stopDuplicateAddressDetection e a s) = addressTable s"
  "endpoints (stopDuplicateAddressDetection e a s) = endpoints s"
  by (simp_all add: stopDuplicateAddressDetection_def split: option.splits)


lemma keepPrefix_fields [simp]:
  "addressTable (cleanupSLAACAddrResourcesAndNotify_keepPrefix e addr s) = addressTable s"
  "endpoints (cleanupSLAACAddrResourcesAndNotify_keepPrefix e addr s) = endpoints s"
  by (simp_all add: cleanupSLAACAddrResourcesAndNotify_keepPrefix_def Let_def
      split: option.splits)




lemma removals_slaacPrefixes [simp]:
  "removals e s (s'\<lparr>slaacPrefixes := x\<rparr>) = removals e s s'"
  by (simp add: removals_def addressInvalidated_def)













lemma removals_dhcpv6Configuration [simp]:
  "removals e s (s'\<lparr>dhcpv6Configuration := x\<rparr>) = removals e s s'"
  by (simp add: removals_def addressInvalidated_def)










subsection \<open>One operation\<close>

lemma step_simps:
  "step e (HandleRA ip ra) s = handleRA e ip ra s"
  "step e (StartDAD addr h) s = map_option snd (startDuplicateAddressDetection e addr h s)"
  "step e (StopDAD addr) s = Some (stopDuplicateAddressDetection e addr s)"
  "step e StartSolicitingRouters s = Some (startSolicitingRouters e s)"
  "step e StopSolicitingRouters s = Some (stopSolicitingRouters s)"
  "step e (CleanupState hostOnly) s = cleanupState e hostOnly s"
  "step e (Tick d) s = Some (if 0 \<le> d then s\<lparr>now := Add (now s) d\<rparr> else s)"
  "step e (FireRouterInvalidation ip) s =
     (case map_of (defaultRouters s) ip of
        None \<Rightarrow> Some s
      | Some rtr \<Rightarrow>
          if due (now s) (rtr_invalidationJob rtr)
          then Some (invalidateDefaultRouter e ip s) else Some s)"
  "step e (FireOnLinkPrefixInvalidation prefix) s =
     (case map_of (onLinkPrefixes s) prefix of
        None \<Rightarrow> Some s
      | Some st \<Rightarrow>
          if due (now s) (olp_invalidationJob st)
          then Some (invalidateOnLinkPrefix e prefix s) else Some s)"
  "step e (FireTempDeprecation prefix addr) s =
     fireTempJob tmp_deprecationJob (\<lambda>st. st\<lparr>tmp_deprecationJob := None\<rparr>)
       (tempDeprecationJob e prefix addr) prefix addr s"
  "step e (FireTempInvalidation prefix addr) s =
     fireTempJob tmp_invalidationJob (\<lambda>st. st\<lparr>tmp_invalidationJob := None\<rparr>)
       (tempInvalidationJob e prefix addr) prefix addr s"
  "step e (FireTempRegen prefix addr) s =
     fireTempJob regenJob (\<lambda>st. st\<lparr>regenJob := None\<rparr>)
       (tempRegenJob e prefix addr) prefix addr s"
  by (simp_all add: step_def)

lemma step_fire_simps:
  "step e (FireDAD addr txerr) s =
     (case map_of (dad s) addr of
        None \<Rightarrow> Some s
      | Some state \<Rightarrow>
          if due (now s) (dad_job state)
          then dadJob e addr txerr
                 (s\<lparr>dad := AList.update addr (state\<lparr>dad_job := None\<rparr>) (dad s)\<rparr>)
          else Some s)"
  "step e (FireSLAACDeprecation prefix) s =
     (case map_of (slaacPrefixes s) prefix of
        None \<Rightarrow> Some s
      | Some state \<Rightarrow>
          if due (now s) (deprecationJob state)
          then slaacDeprecationJob e prefix
                 (s\<lparr>slaacPrefixes := AList.update prefix
                       (state\<lparr>deprecationJob := None\<rparr>) (slaacPrefixes s)\<rparr>)
          else Some s)"
  "step e (FireSLAACInvalidation prefix) s =
     (case map_of (slaacPrefixes s) prefix of
        None \<Rightarrow> Some s
      | Some state \<Rightarrow>
          if due (now s) (invalidationJob state)
          then slaacInvalidationJob e prefix
                 (s\<lparr>slaacPrefixes := AList.update prefix
                       (state\<lparr>invalidationJob := None\<rparr>) (slaacPrefixes s)\<rparr>)
          else Some s)"
  "step e (FireRtrSolicit acquired txerr) s =
     (case rtrSolicitJob s of
        None \<Rightarrow> Some s
      | Some j \<Rightarrow>
          if due (now s) (rs_job j)
          then rtrSolicitJobBody e acquired txerr (s\<lparr>rtrSolicitJob := Some (j\<lparr>rs_job := None\<rparr>)\<rparr>)
          else Some s)"
  by (simp_all add: step_def)


lemma step_core:
  assumes "step e operation s = Some s'" and "slaacOrDADOp operation"
  shows "core s' = core s"
proof (cases operation)
  case (StartDAD addr h)
  with assms(1) show ?thesis
    by (auto simp: step_simps step_fire_simps dest!: startDAD_core)
next
  case (StopDAD addr)
  with assms(1) show ?thesis
    by (auto simp: step_simps step_fire_simps)
next
  case (FireDAD addr txerr)
  with assms(1) show ?thesis
    by (auto simp: step_simps step_fire_simps split: option.splits if_splits dest!: dadJob_core)
next
  case (FireSLAACDeprecation prefix)
  with assms(1) show ?thesis
    by (auto simp: step_simps step_fire_simps split: option.splits if_splits dest!: slaacDeprecationJob_core)
next
  case (FireSLAACInvalidation prefix)
  with assms(1) show ?thesis
    by (auto simp: step_simps step_fire_simps split: option.splits if_splits dest!: slaacInvalidationJob_core)
next
  case (FireTempDeprecation prefix addr)
  with assms(1) show ?thesis
    by (simp only: step_simps) (erule fireTempJob_core [rotated], erule tempDeprecationJob_core)
next
  case (FireTempInvalidation prefix addr)
  with assms(1) show ?thesis
    by (simp only: step_simps) (erule fireTempJob_core [rotated], erule tempInvalidationJob_core)
next
  case (FireTempRegen prefix addr)
  with assms(1) show ?thesis
    by (simp only: step_simps) (erule fireTempJob_core [rotated], erule tempRegenJob_core)
qed (use assms(2) in simp_all)

lemma cleanupState_rsView:
  assumes "cleanupState e hostOnly s = Some s'"
  shows "rsView s' = rsView s"
proof -
  from assms obtain s1 where
    r: "removeSLAACAddresses e hostOnly s = Some s1" and
    s': "s' = fold (invalidateDefaultRouter e) (map fst (defaultRouters s1))
                (fold (invalidateOnLinkPrefix e) (map fst (onLinkPrefixes s1)) s1)
              \<lparr>dhcpv6Configuration := 0\<rparr>"
    by (auto simp: cleanupState_result split: option.splits)
  let ?s2 = "fold (invalidateOnLinkPrefix e) (map fst (onLinkPrefixes s1)) s1"
  have "rtrView ?s2 = rtrView s1"
    by simp
  then have "rsView ?s2 = rsView s1"
    by (rule rtrView_rsView)
  with s' core_rsView [OF removeSLAACAddresses_core [OF r]] show ?thesis
    by simp
qed

lemma handleRA_rsView:
  assumes "handleRA e ip ra s = Some s'"
  shows "rsView s' = rsView s"
proof -
  from handleRA_parts [OF assms] show ?thesis
  proof
    assume "s' = s"
    then show ?thesis by simp
  next
    assume "\<exists>s1. rsView s1 = rsView s \<and> defaultRouters s1 = defaultRouters s
                \<and> onLinkPrefixes s1 = onLinkPrefixes s
                \<and> routerDiscoveredEvents s1 = routerDiscoveredEvents s
                \<and> handleRA_options e (Options ra)
                     (handleRA_defaultRouter e ip (RouterLifetime ra) s1) = Some s'"
    then obtain s1 where
      v: "rsView s1 = rsView s" and
      o: "handleRA_options e (Options ra)
            (handleRA_defaultRouter e ip (RouterLifetime ra) s1) = Some s'"
      by (elim exE conjE)
    from rtrView_rsView [OF handleRA_options_rtrView [OF o]] v show ?thesis
      by simp
  qed
qed

lemma step_rsView:
  assumes "step e operation s = Some s'"
      and "operation \<noteq> StartSolicitingRouters"
      and "operation \<noteq> StopSolicitingRouters"
      and "\<And>acquired txerr. operation \<noteq> FireRtrSolicit acquired txerr"
  shows "rsView s' = rsView s"
proof (cases "slaacOrDADOp operation")
  case True
  from core_rsView [OF step_core [OF assms(1) True]] show ?thesis .
next
  case False
  then show ?thesis
  proof (cases operation)
    case (HandleRA ip ra)
    with assms(1) show ?thesis
      by (simp add: step_simps step_fire_simps handleRA_rsView)
  next
    case (CleanupState hostOnly)
    with assms(1) show ?thesis
      by (simp add: step_simps step_fire_simps cleanupState_rsView)
  next
    case (Tick d)
    with assms(1) show ?thesis
      by (auto simp: step_simps step_fire_simps)
  next
    case (FireRouterInvalidation ip)
    with assms(1) show ?thesis
      by (auto simp: step_simps step_fire_simps split: option.splits if_splits)
  next
    case (FireOnLinkPrefixInvalidation prefix)
    have "rsView (invalidateOnLinkPrefix e prefix s) = rsView s"
      by (rule rtrView_rsView) simp
    with FireOnLinkPrefixInvalidation assms(1) show ?thesis
      by (auto simp: step_simps split: option.splits if_splits)
  qed (use assms(2,3,4) in simp_all)
qed

lemma step_tablesBounded:
  assumes "step e operation s = Some s'" and "tablesBounded s"
  shows "tablesBounded s'"
proof (cases "slaacOrDADOp operation")
  case True
  from step_core [OF assms(1) True] assms(2) show ?thesis
    by (simp add: core_def tablesBounded_def)
next
  case False
  then show ?thesis
  proof (cases operation)
    case (HandleRA ip ra)
    with assms show ?thesis
      by (simp add: step_simps step_fire_simps handleRA_tablesBounded)
  next
    case StartSolicitingRouters
    with assms show ?thesis
      by (auto simp: step_simps step_fire_simps startSolicitingRouters_def tablesBounded_def Let_def)
  next
    case StopSolicitingRouters
    with assms show ?thesis
      by (auto simp: step_simps step_fire_simps stopSolicitingRouters_def tablesBounded_def)
  next
    case (CleanupState hostOnly)
    with assms(1) have "cleanupState e hostOnly s = Some s'"
      by (simp add: step_simps step_fire_simps)
    from cleanupState_tables [OF this] show ?thesis
      by (simp add: tablesBounded_def)
  next
    case (Tick d)
    with assms show ?thesis
      by (auto simp: step_simps step_fire_simps tablesBounded_def)
  next
    case (FireRouterInvalidation ip)
    with assms invalidateDefaultRouter_length [of e ip s] show ?thesis
      by (auto simp: step_simps step_fire_simps tablesBounded_def split: option.splits if_splits)
  next
    case (FireOnLinkPrefixInvalidation prefix)
    with assms invalidateOnLinkPrefix_length [of e prefix s] show ?thesis
      by (auto simp: step_simps step_fire_simps tablesBounded_def split: option.splits if_splits)
  next
    case (FireRtrSolicit acquired txerr)
    with assms show ?thesis
      by (auto simp: step_simps step_fire_simps rtrSolicitJobBody_def tablesBounded_def Let_def
          split: option.splits if_splits)
  qed simp_all
qed

lemma run_tablesBounded:
  "run e ops s = Some s' \<Longrightarrow> tablesBounded s \<Longrightarrow> tablesBounded s'"
proof (induction ops arbitrary: s)
  case Nil
  then show ?case by simp
next
  case (Cons operation ops)
  from Cons.prems(1) obtain s1 where
    a: "step e operation s = Some s1" and b: "run e ops s1 = Some s'"
    by (auto split: option.splits)
  from Cons.IH [OF b step_tablesBounded [OF a Cons.prems(2)]] show ?case .
qed

subsection \<open>The tables stay within their bounds\<close>

lemmas handleRA_defs =
  handleRA_def handleRA_defaultRouter_def handleRA_option_def
  handleOnLinkPrefixInformation_def rememberDefaultRouter_def rememberOnLinkPrefix_def
  IsV6LinkLocalAddress_def MaxDiscoveredDefaultRouters_def MaxDiscoveredOnLinkPrefixes_def
  Schedule_def Add_def DHCPv6NoConfiguration_def

lemmas full_defs =
  exampleFullState_def exampleState_def exampleEnv_def exampleDispatcher_def
  exampleRA_def exampleOnLinkPI_def exampleOnLinkPrefix_def exampleRouter_def
  DefaultNDPConfigurations_def defaultHandleRAs_def defaultDiscoverDefaultRouters_def
  defaultDiscoverOnLinkPrefixes_def

lemma example_ten_advertisements:
  "run exampleEnv exampleRAs exampleState = Some exampleFullState"
  by (simp add: exampleRAs_def step_simps handleRA_defs full_defs durations Let_def)

lemma example_eleventh_advertisement:
  "handleRA exampleEnv (exampleRouter 11) (exampleRA 11) exampleFullState = Some exampleFullState"
  by (simp add: handleRA_defs full_defs durations Let_def)

text \<open>
  C4. A run of operations (Router Advertisements handled, jobs run by the runtime,
  teardown and the other calls) from a state whose default router table and on-link
  prefix table hold at most ten entries each, as a new interface's empty tables do,
  ends in such a state. With ten default routers known, the default router part of
  \<^verbatim>\<open>handleRA\<close> leaves the state as it is for an unknown router with a router lifetime
  other than zero, and the whole of \<^verbatim>\<open>handleRA\<close> leaves the table as it is and calls
  \<^verbatim>\<open>OnDefaultRouterDiscovered\<close> for no router; with ten on-link prefixes known,
  \<^verbatim>\<open>handleOnLinkPrefixInformation\<close> leaves the state as it is for an unknown prefix with
  a valid lifetime other than zero.
\<close>

theorem tables_bounded_and_overflow_ignored:
  "(tablesBounded s \<and> run e ops s = Some s' \<longrightarrow> tablesBounded s')
   \<and> (MaxDiscoveredDefaultRouters \<le> length (defaultRouters s)
        \<and> map_of (defaultRouters s) ip = None \<and> rl \<noteq> 0 \<longrightarrow>
          handleRA_defaultRouter e ip rl s = s)
   \<and> (MaxDiscoveredDefaultRouters \<le> length (defaultRouters s)
        \<and> map_of (defaultRouters s) ip = None \<and> RouterLifetime ra \<noteq> 0
        \<and> handleRA e ip ra s = Some s1 \<longrightarrow>
          defaultRouters s1 = defaultRouters s
          \<and> routerDiscoveredEvents s1 = routerDiscoveredEvents s)
   \<and> (MaxDiscoveredOnLinkPrefixes \<le> length (onLinkPrefixes s)
        \<and> map_of (onLinkPrefixes s) (pi_Subnet pi) = None \<and> ValidLifetime pi \<noteq> 0 \<longrightarrow>
          handleOnLinkPrefixInformation e pi s = s)"
proof -
  have a: "tablesBounded s \<and> run e ops s = Some s' \<longrightarrow> tablesBounded s'"
    using run_tablesBounded by blast
  have b: "MaxDiscoveredDefaultRouters \<le> length (defaultRouters s)
        \<and> map_of (defaultRouters s) ip = None \<and> rl \<noteq> 0 \<longrightarrow>
          handleRA_defaultRouter e ip rl s = s"
    using handleRA_defaultRouter_full by blast
  have c: "MaxDiscoveredDefaultRouters \<le> length (defaultRouters s)
        \<and> map_of (defaultRouters s) ip = None \<and> RouterLifetime ra \<noteq> 0
        \<and> handleRA e ip ra s = Some s1 \<longrightarrow>
          defaultRouters s1 = defaultRouters s
          \<and> routerDiscoveredEvents s1 = routerDiscoveredEvents s"
    using handleRA_full_router_table by blast
  have d: "MaxDiscoveredOnLinkPrefixes \<le> length (onLinkPrefixes s)
        \<and> map_of (onLinkPrefixes s) (pi_Subnet pi) = None \<and> ValidLifetime pi \<noteq> 0 \<longrightarrow>
          handleOnLinkPrefixInformation e pi s = s"
    using handleOnLinkPrefixInformation_full by blast
  from a b c d show ?thesis by (intro conjI)
qed

theorem tables_bounded_witness:
  "tablesBounded exampleState
   \<and> run exampleEnv exampleRAs exampleState = Some exampleFullState
   \<and> tablesBounded exampleFullState
   \<and> length (defaultRouters exampleFullState) = 10
   \<and> length (onLinkPrefixes exampleFullState) = 10
   \<and> map_of (defaultRouters exampleFullState) (exampleRouter 11) = None
   \<and> map_of (onLinkPrefixes exampleFullState) (exampleOnLinkPrefix 11) = None
   \<and> handleRA_defaultRouter exampleEnv (exampleRouter 11) (30 * Minute) exampleFullState
       = exampleFullState
   \<and> handleOnLinkPrefixInformation exampleEnv (exampleOnLinkPI 11) exampleFullState
       = exampleFullState
   \<and> handleRA exampleEnv (exampleRouter 11) (exampleRA 11) exampleFullState
       = Some exampleFullState"
proof -
  note t = tables_bounded_and_overflow_ignored
    [where s = exampleState and e = exampleEnv and ops = exampleRAs and s' = exampleFullState]
  note u = tables_bounded_and_overflow_ignored
    [where s = exampleFullState and e = exampleEnv and ip = "exampleRouter 11"
       and rl = "30 * Minute" and pi = "exampleOnLinkPI 11"]
  have b0: "tablesBounded exampleState"
    by (simp add: tablesBounded_def exampleState_def)
  have r: "run exampleEnv exampleRAs exampleState = Some exampleFullState"
    by (rule example_ten_advertisements)
  from t [THEN conjunct1] b0 r have b1: "tablesBounded exampleFullState"
    by simp
  have n: "length (defaultRouters exampleFullState) = 10"
          "length (onLinkPrefixes exampleFullState) = 10"
    by (simp_all add: exampleFullState_def)
  have m: "map_of (defaultRouters exampleFullState) (exampleRouter 11) = None"
          "map_of (onLinkPrefixes exampleFullState) (exampleOnLinkPrefix 11) = None"
    by (simp_all add: exampleFullState_def exampleRouter_def exampleOnLinkPrefix_def)
  have l: "(30 * Minute :: Duration) \<noteq> 0" "ValidLifetime (exampleOnLinkPI 11) \<noteq> 0"
          "pi_Subnet (exampleOnLinkPI 11) = exampleOnLinkPrefix 11"
    by (simp_all add: exampleOnLinkPI_def durations)
  from u [THEN conjunct2, THEN conjunct1] n m(1) l(1) have
    c1: "handleRA_defaultRouter exampleEnv (exampleRouter 11) (30 * Minute) exampleFullState
           = exampleFullState"
    by (simp add: MaxDiscoveredDefaultRouters_def)
  from u [THEN conjunct2, THEN conjunct2, THEN conjunct2] n m(2) l(2,3) have
    c2: "handleOnLinkPrefixInformation exampleEnv (exampleOnLinkPI 11) exampleFullState
           = exampleFullState"
    by (simp add: MaxDiscoveredOnLinkPrefixes_def)
  from b0 r b1 n m c1 c2 example_eleventh_advertisement show ?thesis
    by (intro conjI)
qed

subsection \<open>Router Solicitation\<close>

lemma rsPackets_append_RS:
  "rsPackets (s\<lparr>packets := packets s @ [(RouterSolicit src opts, r)]\<rparr>)
     = rsPackets s @ [(RouterSolicit src opts, r)]"
  by (simp add: rsPackets_def)

lemma rsPackets_rtrSolicitJob_upd [simp]:
  "rsPackets (s\<lparr>rtrSolicitJob := j\<rparr>) = rsPackets s"
  by (simp add: rsPackets_def)

lemma rsView_burstWithin:
  "rsView s' = rsView s \<Longrightarrow> burstWithin bound s' = burstWithin bound s"
  by (auto simp: rsView_def burstWithin_def split: option.splits)

lemma rsView_burstOver:
  "rsView s' = rsView s \<Longrightarrow> burstOver s' = burstOver s"
  by (auto simp: rsView_def burstOver_def split: option.splits)

lemma startSolicitingRouters_burstWithin:
  "rtrSolicitJob s = None \<Longrightarrow>
     burstWithin (length (rsPackets s) + unat (MaxRtrSolicitations (configs s)))
       (startSolicitingRouters e s)"
  by (simp add: startSolicitingRouters_def burstWithin_def Schedule_def Let_def)

lemma burstWithin_bound: "burstWithin bound s \<Longrightarrow> length (rsPackets s) \<le> bound"
  by (auto simp: burstWithin_def split: option.splits)

text \<open>What one run of the router solicitation job does.\<close>

lemma fireRtrSolicit_result:
  assumes "rtrSolicitJob s = Some j" and "due (now s) (rs_job j)"
  shows "step e (FireRtrSolicit acquired txerr) s =
           Some (s\<lparr>packets := packets s @
                    [(RouterSolicit (case acquired of None \<Rightarrow> IPv6Any | Some a \<Rightarrow> a)
                        (if (case acquired of None \<Rightarrow> IPv6Any | Some a \<Rightarrow> a) \<noteq> IPv6Any
                            \<and> IsValidUnicastEthernetAddress e (LinkAddress e)
                         then [LinkAddress e] else []), txerr)],
                  rtrSolicitJob := Some
                    \<lparr>rs_job =
                       (if (if txerr \<noteq> None then 0 else rs_remaining j - 1) \<noteq> 0
                        then Schedule (now s) (RtrSolicitationInterval (configs s)) else None),
                     rs_remaining = (if txerr \<noteq> None then 0 else rs_remaining j - 1)\<rparr>\<rparr>)"
  using assms by (simp add: step_fire_simps rtrSolicitJobBody_def Let_def)

lemma fireRtrSolicit_burstWithin:
  assumes "step e (FireRtrSolicit acquired txerr) s = Some s'" and "burstWithin bound s"
  shows "burstWithin bound s'"
proof (cases "rtrSolicitJob s")
  case None
  with assms show ?thesis by (simp add: step_fire_simps)
next
  case (Some j)
  show ?thesis
  proof (cases "due (now s) (rs_job j)")
    case False
    with Some assms show ?thesis by (simp add: step_fire_simps)
  next
    case True
    then obtain deadline where p: "rs_job j = Some deadline"
      by (auto simp: due_def split: option.splits)
    with Some assms(2) have
      r: "rs_remaining j \<noteq> 0" and
      b: "length (rsPackets s) + unat (rs_remaining j) \<le> bound"
      by (simp_all add: burstWithin_def)
    from r have u: "unat (rs_remaining j - 1) = unat (rs_remaining j) - 1"
      by (rule unat_minus_one)
    from r have g: "0 < unat (rs_remaining j)"
      by (simp add: unat_gt_0)
    from fireRtrSolicit_result [OF Some True, of e acquired txerr] assms(1) b u g
    show ?thesis
      by (auto simp: burstWithin_def rsPackets_append_RS Schedule_def split: if_splits)
  qed
qed

lemma fireRtrSolicit_burstOver:
  assumes "step e (FireRtrSolicit acquired txerr) s = Some s'" and "burstOver s"
  shows "s' = s"
  using assms by (auto simp: step_fire_simps burstOver_def due_def split: option.splits)

lemma step_burstWithin:
  assumes "step e operation s = Some s'" and "operation \<noteq> StopSolicitingRouters"
      and "burstWithin bound s"
  shows "burstWithin bound s'"
proof (cases operation)
  case StartSolicitingRouters
  with assms(1,3) show ?thesis
    by (auto simp: step_simps startSolicitingRouters_def burstWithin_def split: option.splits)
next
  case StopSolicitingRouters
  with assms(2) show ?thesis by simp
next
  case (FireRtrSolicit acquired txerr)
  with assms(1,3) show ?thesis
    by (simp add: fireRtrSolicit_burstWithin)
qed (use assms(1,3) in \<open>simp_all add: rsView_burstWithin [OF step_rsView]\<close>)

lemma rsView_over:
  "rsView s' = rsView s \<Longrightarrow> burstOver s \<Longrightarrow> burstOver s' \<and> rsPackets s' = rsPackets s"
  by (auto simp: rsView_def burstOver_def split: option.splits)

lemma step_burstOver:
  assumes "step e operation s = Some s'" and "operation \<noteq> StopSolicitingRouters"
      and "burstOver s"
  shows "burstOver s' \<and> rsPackets s' = rsPackets s"
proof (cases operation)
  case StartSolicitingRouters
  with assms(1,3) show ?thesis
    by (auto simp: step_simps startSolicitingRouters_def burstOver_def split: option.splits)
next
  case StopSolicitingRouters
  with assms(2) show ?thesis by simp
next
  case (FireRtrSolicit acquired txerr)
  with assms(1,3) fireRtrSolicit_burstOver [of e acquired txerr s s'] show ?thesis
    by simp
qed (use assms(1,3) in \<open>simp_all add: rsView_over [OF step_rsView]\<close>)

lemma run_burstWithin:
  "run e ops s = Some s' \<Longrightarrow> StopSolicitingRouters \<notin> set ops \<Longrightarrow> burstWithin bound s \<Longrightarrow>
     burstWithin bound s'"
proof (induction ops arbitrary: s)
  case Nil
  then show ?case by simp
next
  case (Cons operation ops)
  from Cons.prems(1) obtain s1 where
    a: "step e operation s = Some s1" and b: "run e ops s1 = Some s'"
    by (auto split: option.splits)
  from Cons.prems(2) have n: "operation \<noteq> StopSolicitingRouters"
    and m: "StopSolicitingRouters \<notin> set ops"
    by auto
  from Cons.IH [OF b m step_burstWithin [OF a n Cons.prems(3)]] show ?case .
qed

lemma run_burstOver:
  "run e ops s = Some s' \<Longrightarrow> StopSolicitingRouters \<notin> set ops \<Longrightarrow> burstOver s \<Longrightarrow>
     rsPackets s' = rsPackets s"
proof (induction ops arbitrary: s)
  case Nil
  then show ?case by simp
next
  case (Cons operation ops)
  from Cons.prems(1) obtain s1 where
    a: "step e operation s = Some s1" and b: "run e ops s1 = Some s'"
    by (auto split: option.splits)
  from Cons.prems(2) have n: "operation \<noteq> StopSolicitingRouters"
    and m: "StopSolicitingRouters \<notin> set ops"
    by auto
  from step_burstOver [OF a n Cons.prems(3)] have
    o: "burstOver s1" and p: "rsPackets s1 = rsPackets s"
    by simp_all
  from Cons.IH [OF b m o] p show ?case by simp
qed

text \<open>
  C8. After \<^verbatim>\<open>startSolicitingRouters\<close> on an interface that was not soliciting, whatever
  happens next short of \<^verbatim>\<open>stopSolicitingRouters\<close>, the Router Solicitations handed to
  the NIC since are at most \<^verbatim>\<open>MaxRtrSolicitations\<close>. A run of the job whose packet the
  NIC accepts hands over one Router Solicitation, takes one off \<^verbatim>\<open>remaining\<close> and
  schedules the job again, \<^verbatim>\<open>RtrSolicitationInterval\<close> from now, only if \<^verbatim>\<open>remaining\<close>
  is not zero then. A run whose packet the NIC refuses sets \<^verbatim>\<open>remaining\<close> to zero and
  leaves the job unscheduled, and no Router Solicitation is handed over afterwards.
\<close>

theorem router_solicitation_burst_is_bounded:
  "(rtrSolicitJob s = None \<and> StopSolicitingRouters \<notin> set ops
      \<and> run e ops (startSolicitingRouters e s) = Some s' \<longrightarrow>
        length (rsPackets s') \<le> length (rsPackets s) + unat (MaxRtrSolicitations (configs s)))
   \<and> (rtrSolicitJob s = Some j \<and> due (now s) (rs_job j) \<longrightarrow>
        (\<exists>s1. step e (FireRtrSolicit acquired None) s = Some s1
            \<and> length (rsPackets s1) = Suc (length (rsPackets s))
            \<and> rtrSolicitJob s1 = Some
                 \<lparr>rs_job = (if rs_remaining j - 1 \<noteq> 0
                             then Schedule (now s) (RtrSolicitationInterval (configs s))
                             else None),
                  rs_remaining = rs_remaining j - 1\<rparr>))
   \<and> (rtrSolicitJob s = Some j \<and> due (now s) (rs_job j)
        \<and> step e (FireRtrSolicit acquired (Some err)) s = Some s2
        \<and> StopSolicitingRouters \<notin> set ops \<and> run e ops s2 = Some s3 \<longrightarrow>
          rtrSolicitJob s2 = Some \<lparr>rs_job = None, rs_remaining = 0\<rparr>
          \<and> rsPackets s3 = rsPackets s2)"
proof -
  have a: "rtrSolicitJob s = None \<and> StopSolicitingRouters \<notin> set ops
      \<and> run e ops (startSolicitingRouters e s) = Some s' \<longrightarrow>
        length (rsPackets s') \<le> length (rsPackets s) + unat (MaxRtrSolicitations (configs s))"
  proof
    assume h: "rtrSolicitJob s = None \<and> StopSolicitingRouters \<notin> set ops
      \<and> run e ops (startSolicitingRouters e s) = Some s'"
    then have "burstWithin (length (rsPackets s) + unat (MaxRtrSolicitations (configs s)))
                 (startSolicitingRouters e s)"
      by (simp add: startSolicitingRouters_burstWithin)
    with h have "burstWithin (length (rsPackets s) + unat (MaxRtrSolicitations (configs s))) s'"
      using run_burstWithin by blast
    then show "length (rsPackets s')
                 \<le> length (rsPackets s) + unat (MaxRtrSolicitations (configs s))"
      by (rule burstWithin_bound)
  qed
  have b: "rtrSolicitJob s = Some j \<and> due (now s) (rs_job j) \<longrightarrow>
        (\<exists>s1. step e (FireRtrSolicit acquired None) s = Some s1
            \<and> length (rsPackets s1) = Suc (length (rsPackets s))
            \<and> rtrSolicitJob s1 = Some
                 \<lparr>rs_job = (if rs_remaining j - 1 \<noteq> 0
                             then Schedule (now s) (RtrSolicitationInterval (configs s))
                             else None),
                  rs_remaining = rs_remaining j - 1\<rparr>)"
  proof
    assume h: "rtrSolicitJob s = Some j \<and> due (now s) (rs_job j)"
    then have "step e (FireRtrSolicit acquired None) s =
           Some (s\<lparr>packets := packets s @
                    [(RouterSolicit (case acquired of None \<Rightarrow> IPv6Any | Some a \<Rightarrow> a)
                        (if (case acquired of None \<Rightarrow> IPv6Any | Some a \<Rightarrow> a) \<noteq> IPv6Any
                            \<and> IsValidUnicastEthernetAddress e (LinkAddress e)
                         then [LinkAddress e] else []), None)],
                  rtrSolicitJob := Some
                    \<lparr>rs_job =
                       (if rs_remaining j - 1 \<noteq> 0
                        then Schedule (now s) (RtrSolicitationInterval (configs s)) else None),
                     rs_remaining = rs_remaining j - 1\<rparr>\<rparr>)"
      using fireRtrSolicit_result [of s j e acquired None] by simp
    then show "\<exists>s1. step e (FireRtrSolicit acquired None) s = Some s1
            \<and> length (rsPackets s1) = Suc (length (rsPackets s))
            \<and> rtrSolicitJob s1 = Some
                 \<lparr>rs_job = (if rs_remaining j - 1 \<noteq> 0
                             then Schedule (now s) (RtrSolicitationInterval (configs s))
                             else None),
                  rs_remaining = rs_remaining j - 1\<rparr>"
      by (simp add: rsPackets_def)
  qed
  have c: "rtrSolicitJob s = Some j \<and> due (now s) (rs_job j)
        \<and> step e (FireRtrSolicit acquired (Some err)) s = Some s2
        \<and> StopSolicitingRouters \<notin> set ops \<and> run e ops s2 = Some s3 \<longrightarrow>
          rtrSolicitJob s2 = Some \<lparr>rs_job = None, rs_remaining = 0\<rparr>
          \<and> rsPackets s3 = rsPackets s2"
  proof
    assume h: "rtrSolicitJob s = Some j \<and> due (now s) (rs_job j)
        \<and> step e (FireRtrSolicit acquired (Some err)) s = Some s2
        \<and> StopSolicitingRouters \<notin> set ops \<and> run e ops s2 = Some s3"
    with fireRtrSolicit_result [of s j e acquired "Some err"] have
      j2: "rtrSolicitJob s2 = Some \<lparr>rs_job = None, rs_remaining = 0\<rparr>"
      by auto
    then have "burstOver s2"
      by (simp add: burstOver_def)
    with h have "rsPackets s3 = rsPackets s2"
      using run_burstOver by blast
    with j2 show "rtrSolicitJob s2 = Some \<lparr>rs_job = None, rs_remaining = 0\<rparr>
          \<and> rsPackets s3 = rsPackets s2"
      by simp
  qed
  from a b c show ?thesis by (intro conjI)
qed

lemmas burst_defs =
  exampleBurst_def step_simps step_fire_simps startSolicitingRouters_def
  rtrSolicitJobBody_def due_def Schedule_def Add_def rsPackets_def

lemma example_burst_runs:
  "\<exists>s'. run exampleEnv exampleBurst (startSolicitingRouters exampleEnv exampleState) = Some s'
        \<and> length (rsPackets s') = 3
        \<and> rtrSolicitJob s' = Some \<lparr>rs_job = None, rs_remaining = 0\<rparr>"
  by (simp add: burst_defs exampleState_def exampleEnv_def DefaultNDPConfigurations_def
      defaultMaxRtrSolicitations_def durations IPv6Any_def Let_def)

theorem router_solicitation_burst_witness:
  "rtrSolicitJob exampleState = None
   \<and> StopSolicitingRouters \<notin> set exampleBurst
   \<and> unat (MaxRtrSolicitations (configs exampleState)) = 3
   \<and> (\<exists>s'. run exampleEnv exampleBurst (startSolicitingRouters exampleEnv exampleState) = Some s'
          \<and> length (rsPackets s') = 3
          \<and> length (rsPackets s')
               \<le> length (rsPackets exampleState) + unat (MaxRtrSolicitations (configs exampleState)))"
proof -
  from example_burst_runs obtain s' where
    r: "run exampleEnv exampleBurst (startSolicitingRouters exampleEnv exampleState) = Some s'" and
    n: "length (rsPackets s') = 3"
    by (elim exE conjE)
  have j: "rtrSolicitJob exampleState = None"
    by (simp add: exampleState_def)
  have m: "StopSolicitingRouters \<notin> set exampleBurst"
    by (simp add: exampleBurst_def)
  have u: "unat (MaxRtrSolicitations (configs exampleState)) = 3"
    by (simp add: exampleState_def DefaultNDPConfigurations_def defaultMaxRtrSolicitations_def)
  from router_solicitation_burst_is_bounded
         [where s = exampleState and e = exampleEnv and ops = exampleBurst and s' = s',
          THEN conjunct1] j m r
  have "length (rsPackets s')
          \<le> length (rsPackets exampleState) + unat (MaxRtrSolicitations (configs exampleState))"
    by simp
  with j m u r n show ?thesis
    by (intro conjI exI [of _ s'])
qed

end
